theory Spec2Isabelle
  imports Complex_Main "HOL-Library.Multiset" "HOL-Library.AList"
    "HOL-Library.Char_ord" "HOL-Library.List_Lexorder"
begin

section \<open>Data model\<close>

text \<open>
  The clustering service receives a batch of conversations. Each conversation is a
  Python dict with the keys \<^verbatim>\<open>id\<close>, \<^verbatim>\<open>semantic_embedding\<close>, \<^verbatim>\<open>attributes\<close> and
  \<^verbatim>\<open>outcome\<close>. An attribute value is a JSON scalar: null, a boolean, an integer, a
  float or a string. Python tells them apart at run time with \<^verbatim>\<open>isinstance\<close>; here
  the tag is the constructor; JSON lists and objects as attribute values are outside the
  model. Floats are real numbers: arithmetic is exact, and the rounding, overflow and
  underflow of IEEE doubles are not part of the model. The thresholds that the libraries
  compare against (the machine epsilon of doubles, the largest double) are part of it.
  Strings are lists of bytes.
\<close>

datatype attr_value = VNone | VBool bool | VInt int | VFloat real | VText string

record conversation =
  cid :: string
  semantic_embedding :: "real list"
  attributes :: "(string \<times> attr_value) list"
  outcome :: string

record weights =
  w_semantic :: real
  w_attributes :: real
  w_outcome :: real

datatype py_error = ValueError | KeyError | IndexError | OverflowError

datatype attr_type = Boolean | Numerical | Categorical

text \<open>\<^verbatim>\<open>conv.get('attributes', {}).get(key)\<close>: a missing key reads as \<^verbatim>\<open>None\<close>.\<close>

definition get_attr :: "conversation \<Rightarrow> string \<Rightarrow> attr_value" where
  "get_attr conv key = (case map_of (attributes conv) key of None \<Rightarrow> VNone | Some v \<Rightarrow> v)"

section \<open>encoding.py\<close>

subsection \<open>encode\_outcome\<close>

text \<open>\<^verbatim>\<open>str.lower\<close>, on the ASCII letters.\<close>

definition lower_char :: "char \<Rightarrow> char" where
  "lower_char c =
     (case map_of (zip ''ABCDEFGHIJKLMNOPQRSTUVWXYZ'' ''abcdefghijklmnopqrstuvwxyz'') c of
        None \<Rightarrow> c | Some d \<Rightarrow> d)"

definition lower :: "string \<Rightarrow> string" where
  "lower s = map lower_char s"

definition outcome_map :: "string \<rightharpoonup> real" where
  "outcome_map = [''satisfied'' \<mapsto> 1, ''unsatisfied'' \<mapsto> 0, ''unclear'' \<mapsto> 1 / 2]"

definition encode_outcome :: "string \<Rightarrow> real" where
  "encode_outcome outcome_label =
     (case outcome_map (lower outcome_label) of None \<Rightarrow> 1 / 2 | Some v \<Rightarrow> v)"

subsection \<open>encode\_attributes\<close>

text \<open>
  \<^verbatim>\<open>all_keys\<close>: the union of the attribute keys of all conversations, sorted.
\<close>

definition collect_keys :: "conversation list \<Rightarrow> string list" where
  "collect_keys conversations =
     sort (remdups (concat (map (\<lambda>conv. map fst (attributes conv)) conversations)))"

text \<open>
  The two dicts the type-detection loop fills: \<^verbatim>\<open>attribute_types\<close> and
  \<^verbatim>\<open>categorical_values\<close>.
\<close>

record type_state =
  attribute_types :: "string \<rightharpoonup> attr_type"
  categorical_values :: "string \<rightharpoonup> string set"

text \<open>
  The inner loop over the conversations for one key. Every branch that meets a value
  other than \<^verbatim>\<open>None\<close> ends the loop (the \<^verbatim>\<open>break\<close> of the source stands at the
  level of \<^verbatim>\<open>if val is not None\<close>).
\<close>

fun scan_key :: "string \<Rightarrow> conversation list \<Rightarrow> type_state \<Rightarrow> type_state" where
  "scan_key key [] st = st"
| "scan_key key (conv # convs) st =
     (case get_attr conv key of
        VNone \<Rightarrow> scan_key key convs st
      | VBool b \<Rightarrow> st\<lparr>attribute_types := (attribute_types st)(key \<mapsto> Boolean)\<rparr>
      | VInt i \<Rightarrow> st\<lparr>attribute_types := (attribute_types st)(key \<mapsto> Numerical)\<rparr>
      | VFloat x \<Rightarrow> st\<lparr>attribute_types := (attribute_types st)(key \<mapsto> Numerical)\<rparr>
      | VText s \<Rightarrow>
          st\<lparr>attribute_types := (attribute_types st)(key \<mapsto> Categorical),
             categorical_values := (categorical_values st)(key \<mapsto>
               insert s (case categorical_values st key of None \<Rightarrow> {} | Some vs \<Rightarrow> vs))\<rparr>)"

fun scan_keys :: "string list \<Rightarrow> conversation list \<Rightarrow> type_state \<Rightarrow> type_state" where
  "scan_keys [] convs st = st"
| "scan_keys (key # keys) convs st = scan_keys keys convs (scan_key key convs st)"

text \<open>Python's truth value of an attribute value (\<^verbatim>\<open>1.0 if val else 0.0\<close>).\<close>

fun truthy :: "attr_value \<Rightarrow> bool" where
  "truthy VNone = False"
| "truthy (VBool b) = b"
| "truthy (VInt i) = (i \<noteq> 0)"
| "truthy (VFloat x) = (x \<noteq> 0)"
| "truthy (VText s) = (s \<noteq> [])"

text \<open>
  \<^verbatim>\<open>float(val) if val is not None else 0.0\<close>. Python's \<^verbatim>\<open>float\<close> on a string parses
  it or raises \<^verbatim>\<open>ValueError\<close>; the parser is a builtin and is taken as the parameter
  \<open>py_float\<close>. On an integer that rounds to a magnitude beyond the largest double,
  \<open>2\<^sup>1\<^sup>0\<^sup>2\<^sup>4 - 2\<^sup>9\<^sup>7\<^sup>1\<close>, it raises \<^verbatim>\<open>OverflowError\<close>: these are the integers from
  \<open>2\<^sup>1\<^sup>0\<^sup>2\<^sup>4 - 2\<^sup>9\<^sup>7\<^sup>0\<close> on.
\<close>

definition int_overflows :: "int \<Rightarrow> bool" where
  "int_overflows i = (2 ^ 1024 - 2 ^ 970 \<le> \<bar>i\<bar>)"

fun to_float :: "(string \<Rightarrow> real option) \<Rightarrow> attr_value \<Rightarrow> py_error + real" where
  "to_float py_float VNone = Inr 0"
| "to_float py_float (VBool b) = Inr (if b then 1 else 0)"
| "to_float py_float (VInt i) = (if int_overflows i then Inl OverflowError else Inr (real_of_int i))"
| "to_float py_float (VFloat x) = Inr x"
| "to_float py_float (VText s) =
     (case py_float s of None \<Rightarrow> Inl ValueError | Some x \<Rightarrow> Inr x)"

fun numerical_column ::
  "(string \<Rightarrow> real option) \<Rightarrow> string \<Rightarrow> conversation list \<Rightarrow> py_error + real list" where
  "numerical_column py_float key [] = Inr []"
| "numerical_column py_float key (conv # convs) =
     (case to_float py_float (get_attr conv key) of
        Inl e \<Rightarrow> Inl e
      | Inr x \<Rightarrow>
          (case numerical_column py_float key convs of
             Inl e \<Rightarrow> Inl e
           | Inr col \<Rightarrow> Inr (x # col)))"

definition boolean_column :: "string \<Rightarrow> conversation list \<Rightarrow> real list" where
  "boolean_column key convs = map (\<lambda>conv. if truthy (get_attr conv key) then 1 else 0) convs"

definition one_hot_column :: "string \<Rightarrow> string \<Rightarrow> conversation list \<Rightarrow> real list" where
  "one_hot_column key unique_val convs =
     map (\<lambda>conv. if get_attr conv key = VText unique_val then 1 else 0) convs"

text \<open>
  The loop that builds \<^verbatim>\<open>feature_vectors\<close> (a list of columns) and
  \<^verbatim>\<open>feature_names\<close>. A key without an entry in \<^verbatim>\<open>attribute_types\<close> defaults to
  categorical; \<^verbatim>\<open>categorical_values[key]\<close> is a plain dict subscript and raises
  \<^verbatim>\<open>KeyError\<close> when the key has no entry.
\<close>

fun build_features ::
  "(string \<Rightarrow> real option) \<Rightarrow> string list \<Rightarrow> conversation list \<Rightarrow> type_state \<Rightarrow>
   real list list \<times> string list \<Rightarrow> py_error + real list list \<times> string list" where
  "build_features py_float [] convs st acc = Inr acc"
| "build_features py_float (key # keys) convs st (feature_vectors, feature_names) =
     (case (case attribute_types st key of None \<Rightarrow> Categorical | Some t \<Rightarrow> t) of
        Boolean \<Rightarrow>
          build_features py_float keys convs st
            (feature_vectors @ [boolean_column key convs], feature_names @ [key])
      | Numerical \<Rightarrow>
          (case numerical_column py_float key convs of
             Inl e \<Rightarrow> Inl e
           | Inr col \<Rightarrow>
               build_features py_float keys convs st
                 (feature_vectors @ [col], feature_names @ [key]))
      | Categorical \<Rightarrow>
          (case categorical_values st key of
             None \<Rightarrow> Inl KeyError
           | Some vs \<Rightarrow>
               (let unique_values = sorted_list_of_set vs in
                build_features py_float keys convs st
                  (feature_vectors @ map (\<lambda>u. one_hot_column key u convs) unique_values,
                   feature_names @ map (\<lambda>u. key @ ''='' @ u) unique_values))))"

text \<open>The machine epsilon of IEEE doubles, \<^verbatim>\<open>np.finfo(np.float64).eps\<close>.\<close>

definition float_eps :: real where
  "float_eps = 1 / 2 ^ 52"

text \<open>
  \<^verbatim>\<open>StandardScaler().fit_transform\<close> of scikit-learn, column by column: subtract the
  mean, divide by the population standard deviation. A column that scikit-learn cannot
  tell from a constant one (\<^verbatim>\<open>_is_constant_feature\<close>: its variance is at most
  \<open>n eps var + (n mean eps)\<^sup>2\<close>, which holds for the variance zero) is divided by 1
  instead.
\<close>

definition mean :: "real list \<Rightarrow> real" where
  "mean col = sum_list col / real (length col)"

definition variance :: "real list \<Rightarrow> real" where
  "variance col = sum_list (map (\<lambda>x. (x - mean col) * (x - mean col)) col) / real (length col)"

definition is_constant_feature :: "real \<Rightarrow> real \<Rightarrow> real \<Rightarrow> bool" where
  "is_constant_feature var mu n_samples =
     (var \<le> n_samples * float_eps * var + (n_samples * mu * float_eps) ^ 2)"

definition standardize :: "real list \<Rightarrow> real list" where
  "standardize col =
     (let scale = (if is_constant_feature (variance col) (mean col) (real (length col)) then 1
                   else sqrt (variance col))
      in map (\<lambda>x. (x - mean col) / scale) col)"

definition fit_transform :: "real list list \<Rightarrow> real list list" where
  "fit_transform matrix = transpose (map standardize (transpose matrix))"

definition zeros :: "nat \<Rightarrow> nat \<Rightarrow> real list list" where
  "zeros n m = replicate n (replicate m 0)"

definition encode_attributes ::
  "(string \<Rightarrow> real option) \<Rightarrow> conversation list \<Rightarrow> py_error + real list list \<times> string list" where
  "encode_attributes py_float conversations =
     (if conversations = [] then Inr ([], [])
      else
        (let all_keys = collect_keys conversations in
         if all_keys = [] then Inr (zeros (length conversations) 1, [])
         else
           (case build_features py_float all_keys conversations
                   (scan_keys all_keys conversations
                      \<lparr>attribute_types = Map.empty, categorical_values = Map.empty\<rparr>)
                   ([], []) of
              Inl e \<Rightarrow> Inl e
            | Inr (feature_vectors, feature_names) \<Rightarrow>
                if feature_vectors = [] then Inr (zeros (length conversations) 1, [])
                else Inr (fit_transform (transpose feature_vectors), feature_names))))"

subsection \<open>create\_weighted\_vectors\<close>

text \<open>
  Matrices are lists of rows. \<^verbatim>\<open>np.linalg.norm(m, axis=1, keepdims=True)\<close> is the
  Euclidean norm of each row; \<^verbatim>\<open>m / (norm + 1e-8)\<close> divides every entry of a row by
  the guarded norm of that row.
\<close>

definition l2_norm :: "real list \<Rightarrow> real" where
  "l2_norm v = sqrt (sum_list (map (\<lambda>x. x * x) v))"

definition epsilon :: real where
  "epsilon = 1 / 10 ^ 8"

definition normalize_rows :: "real list list \<Rightarrow> real list list" where
  "normalize_rows m = map (\<lambda>row. map (\<lambda>x. x / (l2_norm row + epsilon)) row) m"

definition scale_rows :: "real \<Rightarrow> real list list \<Rightarrow> real list list" where
  "scale_rows w m = map (map (\<lambda>x. w * x)) m"

text \<open>\<^verbatim>\<open>m.shape[1]\<close> of a matrix with at least one row.\<close>

definition ncols :: "real list list \<Rightarrow> nat" where
  "ncols m = (case m of [] \<Rightarrow> 0 | row # _ \<Rightarrow> length row)"

text \<open>
  \<^verbatim>\<open>np.concatenate([a, b, c], axis=1)\<close>: the rows are joined one by one; NumPy raises
  \<^verbatim>\<open>ValueError\<close> when the row counts differ.
\<close>

definition concatenate_axis1 ::
  "real list list \<Rightarrow> real list list \<Rightarrow> real list list \<Rightarrow> py_error + real list list" where
  "concatenate_axis1 a b c =
     (if length a = length b \<and> length b = length c
      then Inr (map (\<lambda>(x, y, z). x @ y @ z) (zip a (zip b c)))
      else Inl ValueError)"

definition create_weighted_vectors ::
  "real list list \<Rightarrow> real list list \<Rightarrow> real list list \<Rightarrow> weights \<Rightarrow> py_error + real list list" where
  "create_weighted_vectors semantic_embeddings encoded_attributes outcome_encodings wts =
     (let n_conversations = length semantic_embeddings;
          semantic_norm = normalize_rows semantic_embeddings;
          attr_norm = (if ncols encoded_attributes > 0 then normalize_rows encoded_attributes
                       else zeros n_conversations 1);
          outcome_norm = normalize_rows outcome_encodings;
          weighted_semantic = scale_rows (w_semantic wts) semantic_norm;
          weighted_attributes = scale_rows (w_attributes wts) attr_norm;
          weighted_outcome = scale_rows (w_outcome wts) outcome_norm
      in concatenate_axis1 weighted_semantic weighted_attributes weighted_outcome)"

section \<open>clustering.py\<close>

subsection \<open>Library routines\<close>

text \<open>
  \<^verbatim>\<open>sklearn.metrics.pairwise.cosine_similarity(X)\<close>: every row is divided by its
  Euclidean norm, and the result holds the dot products of the normalised rows. A row
  whose norm is below \<open>10 eps\<close> (about \<open>2.2 \<times> 10\<^sup>-\<^sup>1\<^sup>5\<close>) is left as it is
  (\<^verbatim>\<open>_handle_zeros_in_scale\<close> replaces such a norm by 1).
\<close>

definition tiny_norm :: real where
  "tiny_norm = 10 * float_eps"

definition dot :: "real list \<Rightarrow> real list \<Rightarrow> real" where
  "dot u v = sum_list (map2 (*) u v)"

definition unit_row :: "real list \<Rightarrow> real list" where
  "unit_row v = map (\<lambda>x. x / (if l2_norm v < tiny_norm then 1 else l2_norm v)) v"

definition cosine_similarity :: "real list list \<Rightarrow> real list list" where
  "cosine_similarity X = map (\<lambda>u. map (\<lambda>v. dot (unit_row u) (unit_row v)) X) X"

text \<open>
  \<^verbatim>\<open>np.array\<close> of a list of rows: the rows must have one length.
\<close>

definition np_array :: "real list list \<Rightarrow> py_error + real list list" where
  "np_array rows =
     (if list_all (\<lambda>row. length row = length (hd rows)) rows then Inr rows else Inl ValueError)"

text \<open>
  \<^verbatim>\<open>squareform(D, checks=False)\<close> on a square matrix: the entries above the diagonal,
  row by row. SciPy raises \<^verbatim>\<open>ValueError\<close> for a matrix that is not square.
\<close>

definition squareform :: "real list list \<Rightarrow> py_error + real list" where
  "squareform D =
     (if list_all (\<lambda>row. length row = length D) D
      then Inr (concat (map (\<lambda>i. map (\<lambda>j. D ! i ! j) [Suc i..<length D]) [0..<length D]))
      else Inl ValueError)"

text \<open>
  The agglomerative clustering itself is SciPy's:
  \<^verbatim>\<open>linkage(condensed, method='ward')\<close> builds the merge tree and
  \<^verbatim>\<open>fcluster(Z, t, criterion='maxclust')\<close> cuts it into at most \<open>t\<close> flat clusters,
  returning one integer label per observation. Both are parameters of the model, together
  with Python's \<^verbatim>\<open>float\<close> parser.
\<close>

record externals =
  py_float :: "string \<Rightarrow> real option"
  linkage :: "real list \<Rightarrow> real list list"
  fcluster :: "real list list \<Rightarrow> int \<Rightarrow> int list"

text \<open>
  What the model needs of SciPy: for \<open>n \<ge> 2\<close> observations (a condensed matrix of
  \<open>n (n - 1) / 2\<close> distances) \<^verbatim>\<open>fcluster\<close> returns \<open>n\<close> labels.
\<close>

definition scipy_shapes :: "externals \<Rightarrow> bool" where
  "scipy_shapes ext =
     (\<forall>n cd t. 2 \<le> n \<and> length cd = n * (n - 1) div 2 \<longrightarrow>
        length (fcluster ext (linkage ext cd) t) = n)"

text \<open>\<^verbatim>\<open>np.unique(labels)\<close>: the distinct labels in ascending order.\<close>

definition np_unique :: "int list \<Rightarrow> int list" where
  "np_unique labels = sort (remdups labels)"

text \<open>\<^verbatim>\<open>np.where(labels == c)[0]\<close>: the positions that hold the label \<open>c\<close>.\<close>

definition np_where :: "int list \<Rightarrow> int \<Rightarrow> nat list" where
  "np_where labels c = filter (\<lambda>i. labels ! i = c) [0..<length labels]"

text \<open>
  \<^verbatim>\<open>cluster_indices[sub_mask]\<close> with \<^verbatim>\<open>sub_mask = subcluster_labels == sub_id\<close>: a
  boolean mask whose length differs from the indexed array raises \<^verbatim>\<open>IndexError\<close>.
\<close>

definition mask_select :: "nat list \<Rightarrow> int list \<Rightarrow> int \<Rightarrow> py_error + nat list" where
  "mask_select cluster_indices subcluster_labels sub_id =
     (if length subcluster_labels = length cluster_indices
      then Inr (map fst (filter (\<lambda>(i, l). l = sub_id) (zip cluster_indices subcluster_labels)))
      else Inl IndexError)"

text \<open>
  \<^verbatim>\<open>distance_matrix[np.ix_(idx, idx)]\<close>: the rows and columns \<open>idx\<close> of an
  \<open>N \<times> N\<close> matrix; an index outside the matrix raises \<^verbatim>\<open>IndexError\<close>.
\<close>

definition np_ix :: "real list list \<Rightarrow> nat list \<Rightarrow> py_error + real list list" where
  "np_ix D idx =
     (if list_all (\<lambda>i. i < length D) idx
      then Inr (map (\<lambda>i. map (\<lambda>j. D ! i ! j) idx) idx)
      else Inl IndexError)"

text \<open>\<^verbatim>\<open>[conversation_ids[i] for i in indices]\<close>.\<close>

fun take_ids :: "string list \<Rightarrow> nat list \<Rightarrow> py_error + string list" where
  "take_ids ids [] = Inr []"
| "take_ids ids (i # rest) =
     (if i < length ids
      then (case take_ids ids rest of Inl e \<Rightarrow> Inl e | Inr members \<Rightarrow> Inr (ids ! i # members))
      else Inl IndexError)"

text \<open>\<^verbatim>\<open>str\<close> of an integer label: its decimal digits, with a sign when negative.\<close>

definition digit_char :: "nat \<Rightarrow> char" where
  "digit_char d = ''0123456789'' ! d"

fun str_nat :: "nat \<Rightarrow> string" where
  "str_nat n = (if n < 10 then [digit_char n] else str_nat (n div 10) @ [digit_char (n mod 10)])"

definition str_int :: "int \<Rightarrow> string" where
  "str_int i = (if i < 0 then CHR ''-'' # str_nat (nat (- i)) else str_nat (nat i))"

subsection \<open>perform\_clustering\<close>

text \<open>
  A Python dict keeps its keys in insertion order and an assignment to a key it already
  has replaces the value in place: an association list under \<^const>\<open>AList.update\<close>.
\<close>

type_synonym clusters = "(string \<times> string list) list"

text \<open>The loop that fills \<^verbatim>\<open>high_level_clusters\<close>.\<close>

fun build_high_level :: "string list \<Rightarrow> int list \<Rightarrow> int list \<Rightarrow> clusters \<Rightarrow> py_error + clusters" where
  "build_high_level ids labels [] high_level_clusters = Inr high_level_clusters"
| "build_high_level ids labels (cluster_id # rest) high_level_clusters =
     (case take_ids ids (np_where labels cluster_id) of
        Inl e \<Rightarrow> Inl e
      | Inr members \<Rightarrow>
          build_high_level ids labels rest
            (AList.update (str_int cluster_id) members high_level_clusters))"

text \<open>The loop over \<^verbatim>\<open>np.unique(subcluster_labels)\<close> that fills \<^verbatim>\<open>cluster_subclusters\<close>.\<close>

fun build_cluster_subclusters ::
  "string list \<Rightarrow> nat list \<Rightarrow> int list \<Rightarrow> int list \<Rightarrow> clusters \<Rightarrow> py_error + clusters" where
  "build_cluster_subclusters ids cluster_indices subcluster_labels [] cluster_subclusters =
     Inr cluster_subclusters"
| "build_cluster_subclusters ids cluster_indices subcluster_labels (sub_id # rest) cluster_subclusters =
     (case mask_select cluster_indices subcluster_labels sub_id of
        Inl e \<Rightarrow> Inl e
      | Inr original_indices \<Rightarrow>
          (case take_ids ids original_indices of
             Inl e \<Rightarrow> Inl e
           | Inr members \<Rightarrow>
               build_cluster_subclusters ids cluster_indices subcluster_labels rest
                 (AList.update (str_int sub_id) members cluster_subclusters)))"

text \<open>The body of the loop of step 7 for one top-level cluster.\<close>

definition subcluster_group ::
  "externals \<Rightarrow> string list \<Rightarrow> real list list \<Rightarrow> int \<Rightarrow> nat list \<Rightarrow> py_error + clusters" where
  "subcluster_group ext ids distance_matrix num_subclusters_per_cluster cluster_indices =
     (if length cluster_indices < 2 then
        (case take_ids ids cluster_indices of
           Inl e \<Rightarrow> Inl e
         | Inr members \<Rightarrow> Inr [(''0'', members)])
      else
        (case np_ix distance_matrix cluster_indices of
           Inl e \<Rightarrow> Inl e
         | Inr cluster_distance_matrix \<Rightarrow>
             (case squareform cluster_distance_matrix of
                Inl e \<Rightarrow> Inl e
              | Inr cluster_condensed \<Rightarrow>
                  (let cluster_linkage = linkage ext cluster_condensed;
                       n_subclusters =
                         min num_subclusters_per_cluster (int (length cluster_indices) - 1);
                       subcluster_labels = fcluster ext cluster_linkage n_subclusters
                   in build_cluster_subclusters ids cluster_indices subcluster_labels
                        (np_unique subcluster_labels) []))))"

fun build_subclusters ::
  "externals \<Rightarrow> string list \<Rightarrow> real list list \<Rightarrow> int \<Rightarrow> int list \<Rightarrow> int list \<Rightarrow>
   (string \<times> clusters) list \<Rightarrow> py_error + (string \<times> clusters) list" where
  "build_subclusters ext ids distance_matrix ns labels [] subclusters = Inr subclusters"
| "build_subclusters ext ids distance_matrix ns labels (cluster_id # rest) subclusters =
     (case subcluster_group ext ids distance_matrix ns (np_where labels cluster_id) of
        Inl e \<Rightarrow> Inl e
      | Inr cluster_subclusters \<Rightarrow>
          build_subclusters ext ids distance_matrix ns labels rest
            (AList.update (str_int cluster_id) cluster_subclusters subclusters))"

definition perform_clustering ::
  "externals \<Rightarrow> conversation list \<Rightarrow> weights \<Rightarrow> int \<Rightarrow> int \<Rightarrow>
   py_error + clusters \<times> (string \<times> clusters) list \<times> real list list" where
  "perform_clustering ext conversations wts num_high_level_clusters num_subclusters_per_cluster =
     (if length conversations < 2 then Inl ValueError
      else
        (let conversation_ids = map cid conversations in
         case np_array (map semantic_embedding conversations) of
           Inl e \<Rightarrow> Inl e
         | Inr semantic_embeddings \<Rightarrow>
        (let outcomes = map (\<lambda>conv. [encode_outcome (outcome conv)]) conversations in
         case encode_attributes (py_float ext) conversations of
           Inl e \<Rightarrow> Inl e
         | Inr (encoded_attrs, attr_names) \<Rightarrow>
        (case create_weighted_vectors semantic_embeddings encoded_attrs outcomes wts of
           Inl e \<Rightarrow> Inl e
         | Inr weighted_vectors \<Rightarrow>
        (let similarity_matrix = cosine_similarity weighted_vectors;
             distance_matrix = map (map (\<lambda>s. 1 - s)) similarity_matrix in
         case squareform distance_matrix of
           Inl e \<Rightarrow> Inl e
         | Inr condensed_distance \<Rightarrow>
        (let linkage_matrix = linkage ext condensed_distance;
             n_high_level = min num_high_level_clusters (int (length conversations) - 1);
             high_level_labels = fcluster ext linkage_matrix n_high_level in
         case build_high_level conversation_ids high_level_labels
                (np_unique high_level_labels) [] of
           Inl e \<Rightarrow> Inl e
         | Inr high_level_clusters \<Rightarrow>
        (case build_subclusters ext conversation_ids distance_matrix
                num_subclusters_per_cluster high_level_labels
                (np_unique high_level_labels) [] of
           Inl e \<Rightarrow> Inl e
         | Inr subclusters \<Rightarrow>
             Inr (high_level_clusters, subclusters, similarity_matrix))))))))"

section \<open>Reading the returned taxonomy\<close>

text \<open>
  The members a boolean mask selects: the entries of \<open>idx\<close> whose label is \<open>s\<close>
  (\<^const>\<open>mask_select\<close> without the length check).
\<close>

definition select :: "nat list \<Rightarrow> int list \<Rightarrow> int \<Rightarrow> nat list" where
  "select idx sl s = map fst (filter (\<lambda>(i, l). l = s) (zip idx sl))"

text \<open>All record ids of the \<^verbatim>\<open>subclusters\<close> dict, in dict order.\<close>

definition all_members :: "(string \<times> clusters) list \<Rightarrow> string list" where
  "all_members subclusters = concat (map snd (concat (map snd subclusters)))"

text \<open>
  \<^verbatim>\<open>record_id in subclusters[top_id][sub_id]\<close>, false when a key is missing.
\<close>

definition in_pair :: "(string \<times> clusters) list \<Rightarrow> string \<Rightarrow> string \<Rightarrow> string \<Rightarrow> bool" where
  "in_pair subclusters top_id sub_id record_id =
     (case map_of subclusters top_id of
        None \<Rightarrow> False
      | Some d \<Rightarrow> (case map_of d sub_id of None \<Rightarrow> False | Some members \<Rightarrow> record_id \<in> set members))"

text \<open>The (top-cluster id, subcluster id, record id) entries of the taxonomy.\<close>

definition entries :: "(string \<times> clusters) list \<Rightarrow> (string \<times> string \<times> string) list" where
  "entries subclusters =
     concat (map (\<lambda>(t, d). concat (map (\<lambda>(s, members). map (\<lambda>i. (t, s, i)) members) d)) subclusters)"

text \<open>
  The composite vectors \<^const>\<open>perform_clustering\<close> computes in its steps 1 to 3, on
  their own.
\<close>

definition weighted_vectors_of :: "externals \<Rightarrow> conversation list \<Rightarrow> weights \<Rightarrow> py_error + real list list" where
  "weighted_vectors_of ext conversations wts =
     (case encode_attributes (py_float ext) conversations of
        Inl e \<Rightarrow> Inl e
      | Inr (encoded_attrs, attr_names) \<Rightarrow>
          create_weighted_vectors (map semantic_embedding conversations) encoded_attrs
            (map (\<lambda>conv. [encode_outcome (outcome conv)]) conversations) wts)"

text \<open>
  The dict that groups the records \<open>idx\<close> by their labels: one entry per distinct label,
  in ascending order, keyed by the label's decimal string.
\<close>

definition grouped :: "string list \<Rightarrow> nat list \<Rightarrow> int list \<Rightarrow> clusters" where
  "grouped ids idx labels =
     map (\<lambda>s. (str_int s, map ((!) ids) (select idx labels s))) (np_unique labels)"

section \<open>A concrete instance of the library routines\<close>

text \<open>
  The theorems below hold for every \<^typ>\<open>externals\<close>. To run the model on concrete
  batches the parameters are instantiated with stand-ins that keep SciPy's shapes: the
  linkage matrix of \<open>n\<close> observations has \<open>n - 1\<close> rows, and the flat clustering
  deals the labels \<open>1, \<dots>, t\<close> out in turn. The stand-in for \<^verbatim>\<open>float\<close> rejects every
  string; no instance below parses one.
\<close>

text \<open>The number \<open>n\<close> of observations of a condensed matrix with \<open>m = n (n - 1) / 2\<close> entries.\<close>

fun obs_count_from :: "nat \<Rightarrow> nat \<Rightarrow> nat" where
  "obs_count_from i m = (if m < i \<or> i = 0 then i else obs_count_from (Suc i) (m - i))"

definition demo_linkage :: "real list \<Rightarrow> real list list" where
  "demo_linkage cd = replicate (obs_count_from 1 (length cd) - 1) []"

definition demo_fcluster :: "real list list \<Rightarrow> int \<Rightarrow> int list" where
  "demo_fcluster Z t = map (\<lambda>i. 1 + int i mod max 1 t) [0..<Suc (length Z)]"

definition demo_externals :: externals where
  "demo_externals =
     \<lparr>py_float = (\<lambda>s. None), linkage = demo_linkage, fcluster = demo_fcluster\<rparr>"

definition conv :: "string \<Rightarrow> real list \<Rightarrow> (string \<times> attr_value) list \<Rightarrow> string \<Rightarrow> conversation" where
  "conv i emb attrs out =
     \<lparr>cid = i, semantic_embedding = emb, attributes = attrs, outcome = out\<rparr>"

section \<open>Integer labels as dict keys\<close>

declare str_nat.simps [simp del]

lemma digit_char_inj: "a < 10 \<Longrightarrow> b < 10 \<Longrightarrow> digit_char a = digit_char b \<Longrightarrow> a = b"
proof -
  assume a: "a < 10" and b: "b < 10" and e: "digit_char a = digit_char b"
  have d: "distinct ''0123456789''" by simp
  from a b have "a < length ''0123456789''" "b < length ''0123456789''" by simp_all
  with d e show "a = b" unfolding digit_char_def by (simp only: nth_eq_iff_index_eq)
qed

lemma digit_char_not_minus: "d < 10 \<Longrightarrow> digit_char d \<noteq> CHR ''-''"
proof -
  assume "d < 10"
  then have "d \<in> {0,1,2,3,4,5,6,7,8,9}" by auto
  then show ?thesis unfolding digit_char_def by auto
qed

lemma str_nat_not_Nil: "str_nat n \<noteq> []"
  by (subst str_nat.simps) simp

lemma last_str_nat: "last (str_nat n) = digit_char (n mod 10)"
  by (subst str_nat.simps) simp

lemma butlast_str_nat: "butlast (str_nat n) = (if n < 10 then [] else str_nat (n div 10))"
  by (subst str_nat.simps) simp

lemma hd_str_nat: "hd (str_nat n) \<noteq> CHR ''-''"
proof (induction n rule: str_nat.induct)
  case (1 n)
  show ?case
  proof (cases "n < 10")
    case True
    then show ?thesis by (subst str_nat.simps) (simp add: digit_char_not_minus)
  next
    case False
    with 1 have "hd (str_nat (n div 10)) \<noteq> CHR ''-''" by simp
    with False show ?thesis
      by (subst str_nat.simps) (simp add: str_nat_not_Nil)
  qed
qed

lemma str_nat_inj: "str_nat n = str_nat m \<Longrightarrow> n = m"
proof (induction n arbitrary: m rule: str_nat.induct)
  case (1 n)
  from "1.prems" have l: "digit_char (n mod 10) = digit_char (m mod 10)"
    using last_str_nat by metis
  then have r: "n mod 10 = m mod 10" by (intro digit_char_inj) simp_all
  from "1.prems" have b: "butlast (str_nat n) = butlast (str_nat m)" by simp
  show ?case
  proof (cases "n < 10")
    case True
    with b have "m < 10"
      using str_nat_not_Nil [of "m div 10"] by (auto simp: butlast_str_nat split: if_splits)
    with True r show ?thesis by simp
  next
    case False
    with b have m: "\<not> m < 10" and e: "str_nat (n div 10) = str_nat (m div 10)"
      using str_nat_not_Nil [of "n div 10"] by (auto simp: butlast_str_nat split: if_splits)
    from "1.IH" [OF False e] have "n div 10 = m div 10" .
    with r show ?thesis by (metis div_mult_mod_eq)
  qed
qed

lemma str_int_inj: "str_int a = str_int b \<Longrightarrow> a = b"
proof -
  assume e: "str_int a = str_int b"
  have h: "\<And>n s. str_nat n = CHR ''-'' # s \<Longrightarrow> False"
    using hd_str_nat by (metis list.sel(1))
  show "a = b"
  proof (cases "a < 0"; cases "b < 0")
    assume "a < 0" "b < 0"
    with e have "str_nat (nat (- a)) = str_nat (nat (- b))" by (simp add: str_int_def)
    then have "nat (- a) = nat (- b)" by (rule str_nat_inj)
    with \<open>a < 0\<close> \<open>b < 0\<close> show ?thesis by simp
  next
    assume "a < 0" "\<not> b < 0"
    with e h show ?thesis by (simp add: str_int_def) metis
  next
    assume "\<not> a < 0" "b < 0"
    with e h show ?thesis by (simp add: str_int_def) metis
  next
    assume "\<not> a < 0" "\<not> b < 0"
    with e have "str_nat (nat a) = str_nat (nat b)" by (simp add: str_int_def)
    then have "nat a = nat b" by (rule str_nat_inj)
    with \<open>\<not> a < 0\<close> \<open>\<not> b < 0\<close> show ?thesis by simp
  qed
qed

section \<open>The loops that fill the dicts\<close>

lemma take_ids_eq:
  "take_ids ids idx =
     (if list_all (\<lambda>i. i < length ids) idx then Inr (map ((!) ids) idx) else Inl IndexError)"
  by (induction idx) auto

lemma update_fresh: "k \<notin> fst ` set al \<Longrightarrow> AList.update k v al = al @ [(k, v)]"
  by (induction al) auto

lemma distinct_np_unique: "distinct (np_unique labels)"
  by (simp add: np_unique_def)

lemma set_np_unique: "set (np_unique labels) = set labels"
  by (simp add: np_unique_def)

lemma build_high_level_Inr:
  assumes "build_high_level ids labels cs acc = Inr r"
    and "distinct cs" and "\<forall>c\<in>set cs. str_int c \<notin> fst ` set acc"
  shows "r = acc @ map (\<lambda>c. (str_int c, map ((!) ids) (np_where labels c))) cs \<and>
         (\<forall>c\<in>set cs. list_all (\<lambda>i. i < length ids) (np_where labels c))"
  using assms
proof (induction cs arbitrary: acc)
  case Nil
  then show ?case by simp
next
  case (Cons c cs)
  from Cons.prems(1) have ok: "list_all (\<lambda>i. i < length ids) (np_where labels c)"
    by (simp add: take_ids_eq split: if_splits)
  let ?v = "map ((!) ids) (np_where labels c)"
  from Cons.prems(3) have fresh: "str_int c \<notin> fst ` set acc" by simp
  from Cons.prems(1) ok have run: "build_high_level ids labels cs (acc @ [(str_int c, ?v)]) = Inr r"
    by (simp add: take_ids_eq update_fresh [OF fresh])
  have keys: "\<forall>d\<in>set cs. str_int d \<notin> fst ` set (acc @ [(str_int c, ?v)])"
    using Cons.prems(2,3) by (auto dest: str_int_inj)
  from Cons.prems(2) have "distinct cs" by simp
  from Cons.IH [OF run this keys] ok show ?case by simp
qed

lemma build_cluster_subclusters_Inr:
  assumes "build_cluster_subclusters ids idx sl ss acc = Inr r"
    and "distinct ss" and "\<forall>s\<in>set ss. str_int s \<notin> fst ` set acc"
  shows "r = acc @ map (\<lambda>s. (str_int s, map ((!) ids) (select idx sl s))) ss \<and>
         (ss \<noteq> [] \<longrightarrow> length sl = length idx)"
  using assms
proof (induction ss arbitrary: acc)
  case Nil
  then show ?case by simp
next
  case (Cons s ss)
  from Cons.prems(1) have len: "length sl = length idx"
    by (simp add: mask_select_def split: if_splits)
  let ?v = "map ((!) ids) (select idx sl s)"
  from Cons.prems(3) have fresh: "str_int s \<notin> fst ` set acc" by simp
  from Cons.prems(1) len have run:
    "build_cluster_subclusters ids idx sl ss (acc @ [(str_int s, ?v)]) = Inr r"
    by (simp add: mask_select_def select_def take_ids_eq update_fresh [OF fresh] split: if_splits)
  have keys: "\<forall>d\<in>set ss. str_int d \<notin> fst ` set (acc @ [(str_int s, ?v)])"
    using Cons.prems(2,3) by (auto dest: str_int_inj)
  from Cons.prems(2) have "distinct ss" by simp
  from Cons.IH [OF run this keys] len show ?case by simp
qed

lemma build_subclusters_Inr:
  assumes "build_subclusters ext ids D ns labels cs acc = Inr r"
    and "distinct cs" and "\<forall>c\<in>set cs. str_int c \<notin> fst ` set acc"
  shows "r = acc @ map (\<lambda>c. (str_int c, projr (subcluster_group ext ids D ns (np_where labels c)))) cs \<and>
         (\<forall>c\<in>set cs. \<not> isl (subcluster_group ext ids D ns (np_where labels c)))"
  using assms
proof (induction cs arbitrary: acc)
  case Nil
  then show ?case by simp
next
  case (Cons c cs)
  from Cons.prems(1) obtain d where d: "subcluster_group ext ids D ns (np_where labels c) = Inr d"
    by (auto split: sum.splits)
  from Cons.prems(3) have fresh: "str_int c \<notin> fst ` set acc" by simp
  from Cons.prems(1) d have run:
    "build_subclusters ext ids D ns labels cs (acc @ [(str_int c, d)]) = Inr r"
    by (simp add: update_fresh [OF fresh])
  have keys: "\<forall>e\<in>set cs. str_int e \<notin> fst ` set (acc @ [(str_int c, d)])"
    using Cons.prems(2,3) by (auto dest: str_int_inj)
  from Cons.prems(2) have "distinct cs" by simp
  from Cons.IH [OF run this keys] d show ?case by simp
qed

section \<open>Labels partition the records\<close>

lemma sum_filter_partition:
  "distinct U \<Longrightarrow>
   (\<Sum>c\<leftarrow>U. mset (filter (\<lambda>x. f x = c) xs)) = mset (filter (\<lambda>x. f x \<in> set U) xs)"
proof (induction U)
  case Nil
  then show ?case by simp
next
  case (Cons c U)
  have "mset (filter (\<lambda>x. f x = c) xs) + mset (filter (\<lambda>x. f x \<in> set U) xs) =
        mset (filter (\<lambda>x. f x = c \<or> f x \<in> set U) xs)"
    using Cons.prems by (induction xs) auto
  with Cons show ?case by simp
qed

lemma mset_concat_filter_partition:
  assumes "distinct U" and "\<forall>x\<in>set xs. f x \<in> set U"
  shows "mset (concat (map (\<lambda>c. filter (\<lambda>x. f x = c) xs) U)) = mset xs"
proof -
  have "mset (concat (map (\<lambda>c. filter (\<lambda>x. f x = c) xs) U)) =
        (\<Sum>c\<leftarrow>U. mset (filter (\<lambda>x. f x = c) xs))"
    by (simp add: mset_concat comp_def)
  also have "\<dots> = mset (filter (\<lambda>x. f x \<in> set U) xs)"
    by (rule sum_filter_partition [OF assms(1)])
  also have "filter (\<lambda>x. f x \<in> set U) xs = xs"
    using assms(2) by (simp add: filter_id_conv)
  finally show ?thesis .
qed

lemma mset_np_where_partition:
  "mset (concat (map (np_where labels) (np_unique labels))) = mset [0..<length labels]"
proof -
  have "mset (concat (map (\<lambda>c. filter (\<lambda>i. labels ! i = c) [0..<length labels]) (np_unique labels)))
        = mset [0..<length labels]"
    by (rule mset_concat_filter_partition) (simp_all add: distinct_np_unique set_np_unique)
  then show ?thesis by (simp add: np_where_def [abs_def])
qed

lemma mset_select_partition:
  assumes "length sl = length idx"
  shows "mset (concat (map (select idx sl) (np_unique sl))) = mset idx"
proof -
  have "\<forall>x\<in>set (zip idx sl). snd x \<in> set (np_unique sl)"
    by (auto simp: set_np_unique dest: set_zip_rightD)
  then have p: "mset (concat (map (\<lambda>s. filter (\<lambda>x. snd x = s) (zip idx sl)) (np_unique sl)))
        = mset (zip idx sl)"
    by (intro mset_concat_filter_partition distinct_np_unique)
  have "concat (map (select idx sl) (np_unique sl)) =
        map fst (concat (map (\<lambda>s. filter (\<lambda>x. snd x = s) (zip idx sl)) (np_unique sl)))"
    by (simp add: select_def [abs_def] map_concat comp_def case_prod_unfold)
  then have "mset (concat (map (select idx sl) (np_unique sl))) =
        image_mset fst (mset (zip idx sl))"
    using p by (metis mset_map)
  also have "\<dots> = mset (map fst (zip idx sl))" by simp
  also have "map fst (zip idx sl) = idx" using assms by simp
  finally show ?thesis .
qed

lemma triangle_step: "Suc m * m div 2 = m + m * (m - 1) div 2"
proof (cases m)
  case 0
  then show ?thesis by simp
next
  case (Suc j)
  have "Suc (Suc j) * Suc j = 2 * Suc j + Suc j * j" by simp
  then have "Suc (Suc j) * Suc j div 2 = Suc j + Suc j * j div 2"
    by (metis div_mult_self4 zero_neq_numeral)
  with Suc show ?thesis by simp
qed

lemma sum_upper_triangle:
  "(\<Sum>i\<leftarrow>[k..<n]. n - Suc i) = (n - k) * (n - k - 1) div 2"
proof (induction "n - k" arbitrary: k)
  case 0
  then show ?case by simp
next
  case (Suc m)
  then have k: "k < n" and m: "m = n - Suc k" by simp_all
  from Suc(1) [OF m] have ih: "(\<Sum>i\<leftarrow>[Suc k..<n]. n - Suc i) = m * (m - 1) div 2"
    using m by simp
  from k have "(\<Sum>i\<leftarrow>[k..<n]. n - Suc i) = (n - Suc k) + (\<Sum>i\<leftarrow>[Suc k..<n]. n - Suc i)"
    by (simp add: upt_conv_Cons)
  also have "\<dots> = m + m * (m - 1) div 2" using ih m by simp
  also have "\<dots> = Suc m * m div 2" by (simp only: triangle_step)
  also have "Suc m = n - k" using Suc(2) by simp
  finally show ?case using m by simp
qed

lemma length_squareform:
  "squareform D = Inr cd \<Longrightarrow> length cd = length D * (length D - 1) div 2"
proof -
  assume "squareform D = Inr cd"
  then have "cd = concat (map (\<lambda>i. map (\<lambda>j. D ! i ! j) [Suc i..<length D]) [0..<length D])"
    by (simp add: squareform_def split: if_splits)
  then have "length cd = (\<Sum>i\<leftarrow>[0..<length D]. length D - Suc i)"
    by (simp add: length_concat comp_def)
  then show ?thesis by (simp add: sum_upper_triangle)
qed

section \<open>The stages of a successful run\<close>

lemma perform_clustering_Inr:
  assumes "perform_clustering ext convs w nh ns = Inr (hl, sub, sim)"
  shows "\<exists>A names V cd.
      2 \<le> length convs \<and>
      np_array (map semantic_embedding convs) = Inr (map semantic_embedding convs) \<and>
      encode_attributes (py_float ext) convs = Inr (A, names) \<and>
      create_weighted_vectors (map semantic_embedding convs) A
        (map (\<lambda>conv. [encode_outcome (outcome conv)]) convs) w = Inr V \<and>
      sim = cosine_similarity V \<and>
      squareform (map (map (\<lambda>s. 1 - s)) sim) = Inr cd \<and>
      build_high_level (map cid convs)
        (fcluster ext (linkage ext cd) (min nh (int (length convs) - 1)))
        (np_unique (fcluster ext (linkage ext cd) (min nh (int (length convs) - 1)))) [] = Inr hl \<and>
      build_subclusters ext (map cid convs) (map (map (\<lambda>s. 1 - s)) sim) ns
        (fcluster ext (linkage ext cd) (min nh (int (length convs) - 1)))
        (np_unique (fcluster ext (linkage ext cd) (min nh (int (length convs) - 1)))) [] = Inr sub"
  using assms
  by (auto simp: perform_clustering_def Let_def np_array_def split: if_splits sum.splits prod.splits)

lemma length_create_weighted_vectors:
  "create_weighted_vectors E A outs w = Inr V \<Longrightarrow> length V = length E"
  by (auto simp: create_weighted_vectors_def concatenate_axis1_def Let_def scale_rows_def
      normalize_rows_def split: if_splits)

lemma length_cosine_similarity: "length (cosine_similarity X) = length X"
  by (simp add: cosine_similarity_def)

lemma length_row_cosine_similarity:
  "row \<in> set (cosine_similarity X) \<Longrightarrow> length row = length X"
  by (auto simp: cosine_similarity_def)

lemma length_np_ix: "np_ix D idx = Inr cdm \<Longrightarrow> length cdm = length idx"
  by (auto simp: np_ix_def split: if_splits)

lemma subcluster_labels_length:
  assumes "scipy_shapes ext" and "2 \<le> length idx" and "np_ix D idx = Inr cdm"
    and "squareform cdm = Inr cd"
  shows "length (fcluster ext (linkage ext cd) t) = length idx"
proof -
  have "length cd = length idx * (length idx - 1) div 2"
    using length_squareform [OF assms(4)] length_np_ix [OF assms(3)] by simp
  with assms(1,2) show ?thesis unfolding scipy_shapes_def by blast
qed

lemma distinct_map_str_int: "distinct cs \<Longrightarrow> distinct (map str_int cs)"
  by (simp add: distinct_map inj_on_def) (blast dest: str_int_inj)

lemma subcluster_group_Inr:
  assumes run: "subcluster_group ext ids D ns idx = Inr d" and shapes: "scipy_shapes ext"
  shows "mset (concat (map snd d)) = mset (map ((!) ids) idx) \<and> distinct (map fst d)"
proof (cases "length idx < 2")
  case True
  with run have "d = [(''0'', map ((!) ids) idx)]"
    by (auto simp: subcluster_group_def take_ids_eq split: if_splits)
  then show ?thesis by simp
next
  case False
  with run obtain cdm cd where ix: "np_ix D idx = Inr cdm" and sq: "squareform cdm = Inr cd"
    and loop: "build_cluster_subclusters ids idx
        (fcluster ext (linkage ext cd) (min ns (int (length idx) - 1)))
        (np_unique (fcluster ext (linkage ext cd) (min ns (int (length idx) - 1)))) [] = Inr d"
    by (auto simp: subcluster_group_def Let_def split: sum.splits)
  let ?sl = "fcluster ext (linkage ext cd) (min ns (int (length idx) - 1))"
  from False have "2 \<le> length idx" by simp
  from subcluster_labels_length [OF shapes this ix sq] have len: "length ?sl = length idx" .
  from build_cluster_subclusters_Inr [OF loop distinct_np_unique]
  have d: "d = map (\<lambda>s. (str_int s, map ((!) ids) (select idx ?sl s))) (np_unique ?sl)" by simp
  then have "concat (map snd d) = map ((!) ids) (concat (map (select idx ?sl) (np_unique ?sl)))"
    by (simp add: map_concat comp_def)
  then have "mset (concat (map snd d)) =
      image_mset ((!) ids) (mset (concat (map (select idx ?sl) (np_unique ?sl))))"
    by simp
  also have "\<dots> = image_mset ((!) ids) (mset idx)"
    by (simp only: mset_select_partition [OF len])
  finally have m: "mset (concat (map snd d)) = mset (map ((!) ids) idx)" by simp
  from d have "map fst d = map str_int (np_unique ?sl)" by (simp add: comp_def)
  then have "distinct (map fst d)"
    by (simp add: distinct_map_str_int distinct_np_unique)
  with m show ?thesis by simp
qed

lemma inj_str_int: "inj str_int"
  by (rule injI) (rule str_int_inj)

lemma map_of_keyed_Some:
  "inj k \<Longrightarrow> map_of (map (\<lambda>c. (k c, v c)) U) x = Some y \<Longrightarrow> \<exists>c\<in>set U. x = k c \<and> y = v c"
  by (induction U) (auto split: if_splits)

lemma map_of_keyed_in:
  "inj k \<Longrightarrow> c \<in> set U \<Longrightarrow> map_of (map (\<lambda>c. (k c, v c)) U) (k c) = Some (v c)"
  by (induction U) (auto dest: injD)

lemma all_members_keyed:
  "all_members (map (\<lambda>c. (k c, g c)) U) = concat (map (\<lambda>c. concat (map snd (g c))) U)"
  by (induction U) (simp_all add: all_members_def)

text \<open>The shape of the two dicts a successful run returns.\<close>

lemma taxonomy_shape:
  assumes run: "perform_clustering ext convs w nh ns = Inr (hl, sub, sim)"
  shows "\<exists>L D. length sim = length convs \<and>
      (scipy_shapes ext \<longrightarrow> length L = length convs) \<and>
      hl = map (\<lambda>c. (str_int c, map ((!) (map cid convs)) (np_where L c))) (np_unique L) \<and>
      sub = map (\<lambda>c. (str_int c, projr (subcluster_group ext (map cid convs) D ns (np_where L c))))
              (np_unique L) \<and>
      (\<forall>c\<in>set (np_unique L). \<not> isl (subcluster_group ext (map cid convs) D ns (np_where L c)))"
proof -
  from perform_clustering_Inr [OF run] obtain A V cd where
    n: "2 \<le> length convs" and
    V: "create_weighted_vectors (map semantic_embedding convs) A
        (map (\<lambda>conv. [encode_outcome (outcome conv)]) convs) w = Inr V" and
    sim: "sim = cosine_similarity V" and
    sq: "squareform (map (map (\<lambda>s. 1 - s)) sim) = Inr cd" and
    hl: "build_high_level (map cid convs)
        (fcluster ext (linkage ext cd) (min nh (int (length convs) - 1)))
        (np_unique (fcluster ext (linkage ext cd) (min nh (int (length convs) - 1)))) [] = Inr hl" and
    sub: "build_subclusters ext (map cid convs) (map (map (\<lambda>s. 1 - s)) sim) ns
        (fcluster ext (linkage ext cd) (min nh (int (length convs) - 1)))
        (np_unique (fcluster ext (linkage ext cd) (min nh (int (length convs) - 1)))) [] = Inr sub"
    by blast
  let ?L = "fcluster ext (linkage ext cd) (min nh (int (length convs) - 1))"
  let ?D = "map (map (\<lambda>s. 1 - s)) sim"
  have ls: "length sim = length convs"
    using length_create_weighted_vectors [OF V] by (simp add: sim length_cosine_similarity)
  have "length cd = length convs * (length convs - 1) div 2"
    using length_squareform [OF sq] ls by simp
  with n have len: "scipy_shapes ext \<longrightarrow> length ?L = length convs"
    unfolding scipy_shapes_def by blast
  from build_high_level_Inr [OF hl distinct_np_unique]
  have 1: "hl = map (\<lambda>c. (str_int c, map ((!) (map cid convs)) (np_where ?L c))) (np_unique ?L)"
    by simp
  from build_subclusters_Inr [OF sub distinct_np_unique]
  have 2: "sub = map (\<lambda>c. (str_int c, projr (subcluster_group ext (map cid convs) ?D ns (np_where ?L c))))
              (np_unique ?L)"
    and 3: "\<forall>c\<in>set (np_unique ?L). \<not> isl (subcluster_group ext (map cid convs) ?D ns (np_where ?L c))"
    by simp_all
  from ls len 1 2 3 show ?thesis by blast
qed

lemma map_entries: "map (\<lambda>e. snd (snd e)) (entries sub) = all_members sub"
proof -
  have inner: "\<And>t d. map (\<lambda>e. snd (snd e)) (concat (map (\<lambda>(s, members). map (\<lambda>i. (t, s, i)) members) d))
      = concat (map snd d)"
    by (induct_tac d) (auto simp: comp_def)
  show ?thesis
    unfolding entries_def all_members_def
    by (induction sub) (auto simp: inner)
qed

lemma set_entries_inner:
  "(t, s, i) \<in> set (concat (map (\<lambda>(s, members). map (\<lambda>i. (t', s, i)) members) d)) \<longleftrightarrow>
   t = t' \<and> (\<exists>members. (s, members) \<in> set d \<and> i \<in> set members)"
  by (induction d) auto

lemma set_entries:
  "(t, s, i) \<in> set (entries sub) \<longleftrightarrow>
   (\<exists>d members. (t, d) \<in> set sub \<and> (s, members) \<in> set d \<and> i \<in> set members)"
proof (induction sub)
  case Nil
  then show ?case by (simp add: entries_def)
next
  case (Cons x sub)
  obtain t' d' where x: "x = (t', d')" by (cases x)
  have "entries (x # sub) =
      concat (map (\<lambda>(s, members). map (\<lambda>i. (t', s, i)) members) d') @ entries sub"
    by (simp add: entries_def x)
  then have "(t, s, i) \<in> set (entries (x # sub)) \<longleftrightarrow>
      (t = t' \<and> (\<exists>members. (s, members) \<in> set d' \<and> i \<in> set members)) \<or>
      (t, s, i) \<in> set (entries sub)"
    by (simp only: set_append Un_iff set_entries_inner)
  with Cons.IH show ?case unfolding x by auto
qed

lemma in_pair_entries:
  assumes "in_pair sub t s i"
  shows "(t, s, i) \<in> set (entries sub)"
proof -
  from assms obtain d members where d: "map_of sub t = Some d" and m: "map_of d s = Some members"
    and i: "i \<in> set members"
    by (auto simp: in_pair_def split: option.splits)
  from d have 1: "(t, d) \<in> set sub" by (rule map_of_SomeD)
  from m have 2: "(s, members) \<in> set d" by (rule map_of_SomeD)
  from 1 2 i show ?thesis unfolding set_entries by blast
qed

lemma entries_in_pair:
  assumes "(t, s, i) \<in> set (entries sub)" and "distinct (map fst sub)"
    and "\<forall>(t, d)\<in>set sub. distinct (map fst d)"
  shows "in_pair sub t s i"
proof -
  from assms(1) obtain d members where d: "(t, d) \<in> set sub" and m: "(s, members) \<in> set d"
    and i: "i \<in> set members"
    unfolding set_entries by blast
  from d assms(2) have 1: "map_of sub t = Some d" by simp
  from d assms(3) have "distinct (map fst d)" by auto
  with m have "map_of d s = Some members" by simp
  with 1 i show ?thesis by (simp add: in_pair_def)
qed

lemma unique_pair:
  assumes dist: "distinct (all_members sub)" and keys: "distinct (map fst sub)"
    and subkeys: "\<forall>(t, d)\<in>set sub. distinct (map fst d)" and i: "i \<in> set (all_members sub)"
  shows "\<exists>!p. in_pair sub (fst p) (snd p) i"
proof -
  from i obtain e where e: "e \<in> set (entries sub)" and ei: "snd (snd e) = i"
    unfolding map_entries [symmetric] by auto
  obtain t s where ts: "e = (t, s, i)" using ei by (cases e) auto
  with e have "in_pair sub t s i" by (intro entries_in_pair keys subkeys) simp
  moreover have "p = (t, s)" if "in_pair sub (fst p) (snd p) i" for p
  proof -
    from that have "(fst p, snd p, i) \<in> set (entries sub)" by (rule in_pair_entries)
    moreover have "inj_on (\<lambda>e. snd (snd e)) (set (entries sub))"
      using dist unfolding map_entries [symmetric] by (simp add: distinct_map)
    ultimately have "(fst p, snd p, i) = (t, s, i)"
      using e ts inj_onD [of "\<lambda>e. snd (snd e)" "set (entries sub)" "(fst p, snd p, i)" "(t, s, i)"]
      by simp
    then show ?thesis by (cases p) simp
  qed
  ultimately show ?thesis by (intro ex1I [of _ "(t, s)"]) simp_all
qed

lemma taxonomy_members:
  assumes run: "perform_clustering ext convs w nh ns = Inr (hl, sub, sim)"
    and shapes: "scipy_shapes ext"
  shows "mset (all_members sub) = mset (map cid convs) \<and> distinct (map fst sub) \<and>
         (\<forall>(t, d)\<in>set sub. distinct (map fst d))"
proof -
  from taxonomy_shape [OF run] shapes obtain L D where
    len: "length L = length convs" and
    sub: "sub = map (\<lambda>c. (str_int c, projr (subcluster_group ext (map cid convs) D ns (np_where L c))))
              (np_unique L)" and
    ok: "\<forall>c\<in>set (np_unique L). \<not> isl (subcluster_group ext (map cid convs) D ns (np_where L c))"
    by blast
  let ?ids = "map cid convs"
  let ?g = "\<lambda>c. projr (subcluster_group ext ?ids D ns (np_where L c))"
  have g: "mset (concat (map snd (?g c))) = mset (map ((!) ?ids) (np_where L c)) \<and>
           distinct (map fst (?g c))" if "c \<in> set (np_unique L)" for c
  proof -
    from ok that obtain d where "subcluster_group ext ?ids D ns (np_where L c) = Inr d"
      by (cases "subcluster_group ext ?ids D ns (np_where L c)") auto
    with subcluster_group_Inr [OF this shapes] show ?thesis by simp
  qed
  have "all_members sub = concat (map (\<lambda>c. concat (map snd (?g c))) (np_unique L))"
    unfolding sub by (rule all_members_keyed)
  then have "mset (all_members sub) = (\<Sum>c\<leftarrow>np_unique L. mset (concat (map snd (?g c))))"
    by (simp add: mset_concat comp_def)
  also have "\<dots> = (\<Sum>c\<leftarrow>np_unique L. mset (map ((!) ?ids) (np_where L c)))"
    using g by (intro arg_cong [where f = sum_list] map_cong) simp_all
  also have "\<dots> = mset (map ((!) ?ids) (concat (map (np_where L) (np_unique L))))"
    by (simp add: mset_concat map_concat comp_def)
  also have "\<dots> = image_mset ((!) ?ids) (mset (concat (map (np_where L) (np_unique L))))"
    by simp
  also have "\<dots> = image_mset ((!) ?ids) (mset [0..<length ?ids])"
    by (simp only: mset_np_where_partition len length_map)
  also have "\<dots> = mset (map ((!) ?ids) [0..<length ?ids])" by simp
  also have "\<dots> = mset ?ids" by (simp only: map_nth)
  finally have m: "mset (all_members sub) = mset ?ids" .
  have "map fst sub = map str_int (np_unique L)" by (simp add: sub comp_def)
  then have k: "distinct (map fst sub)" by (simp add: distinct_map_str_int distinct_np_unique)
  have "\<forall>(t, d)\<in>set sub. distinct (map fst d)" using g by (auto simp: sub)
  with m k show ?thesis by simp
qed

section \<open>The concrete instance keeps SciPy's shapes\<close>

declare obs_count_from.simps [simp del]

lemma obs_count_from_triangle:
  "1 \<le> i \<Longrightarrow> obs_count_from i (d * i + d * (d - 1) div 2) = i + d"
proof (induction d arbitrary: i)
  case 0
  then show ?case by (subst obs_count_from.simps) simp
next
  case (Suc d)
  have split: "Suc d * i + Suc d * (Suc d - 1) div 2 = i + (d * Suc i + d * (d - 1) div 2)"
    using triangle_step [of d] by (simp add: algebra_simps)
  have "obs_count_from i (Suc d * i + Suc d * (Suc d - 1) div 2) =
        obs_count_from (Suc i) (d * Suc i + d * (d - 1) div 2)"
    using Suc.prems by (subst obs_count_from.simps) (simp only: split, simp)
  also have "\<dots> = Suc i + d" by (rule Suc.IH) simp
  finally show ?case by simp
qed

lemma obs_count_from_condensed:
  assumes "2 \<le> n"
  shows "obs_count_from 1 (n * (n - 1) div 2) = n"
proof -
  from assms obtain d where n: "n = Suc d" by (cases n) auto
  have "n * (n - 1) div 2 = d * 1 + d * (d - 1) div 2"
    using triangle_step [of d] by (simp add: n)
  then have "obs_count_from 1 (n * (n - 1) div 2) = 1 + d"
    using obs_count_from_triangle [of 1 d] by simp
  with n show ?thesis by simp
qed

lemma scipy_shapes_demo: "scipy_shapes demo_externals"
  unfolding scipy_shapes_def
proof (intro allI impI)
  fix n :: nat and cd :: "real list" and t :: int
  assume "2 \<le> n \<and> length cd = n * (n - 1) div 2"
  then have "obs_count_from 1 (length cd) = n" and "2 \<le> n"
    using obs_count_from_condensed [of n] by simp_all
  then show "length (fcluster demo_externals (linkage demo_externals cd) t) = n"
    by (simp add: demo_externals_def demo_linkage_def demo_fcluster_def)
qed

section \<open>A run of the concrete instance\<close>

text \<open>
  Three records without attributes under the weights \<open>(0, 0, 0)\<close>, five top-level
  clusters and three subclusters requested. The stages are evaluated one by one.
\<close>

lemma demo_labels:
  "fcluster demo_externals (linkage demo_externals [x, y, z]) 2 = [1, 2, 1]"
  "fcluster demo_externals (linkage demo_externals [x]) 1 = [1, 1]"
  by (simp_all add: demo_externals_def demo_linkage_def demo_fcluster_def upt_conv_Cons
      obs_count_from.simps)

lemma demo_str_int: "str_int 1 = ''1''" "str_int 2 = ''2''"
  by (simp_all add: str_int_def digit_char_def str_nat.simps)

lemma demo_np_where:
  "np_where [1, 2, 1] 1 = [0, 2]" "np_where [1, 2, 1] 2 = [Suc 0]"
  "np_unique [1, 2, 1] = [1, 2]" "np_unique [1, 1] = [1]"
  by (simp_all add: np_where_def np_unique_def upt_conv_Cons)

lemma demo_encode_attributes:
  "encode_attributes pf
     [conv ''a'' [1] [] ''satisfied'', conv ''b'' [1] [] ''unclear'', conv ''c'' [2] [] ''other''] =
   Inr ([[0], [0], [0]], [])"
  by (simp add: encode_attributes_def collect_keys_def conv_def zeros_def)

lemma demo_weighted_vectors:
  "create_weighted_vectors [[1], [1], [2]] [[0], [0], [0]] [[x], [y], [z]]
     \<lparr>w_semantic = 0, w_attributes = 0, w_outcome = 0\<rparr> =
   Inr [[0, 0, 0], [0, 0, 0], [0, 0, 0]]"
  by (simp add: create_weighted_vectors_def ncols_def normalize_rows_def scale_rows_def
      concatenate_axis1_def)

lemma demo_similarity:
  "cosine_similarity [[0, 0, 0], [0, 0, 0], [0, 0, 0]] = [[0, 0, 0], [0, 0, 0], [0, 0, 0]]"
  by (simp add: cosine_similarity_def unit_row_def dot_def l2_norm_def tiny_norm_def float_eps_def)

lemma demo_squareform:
  "squareform [[a, b, c], [d, e, f], [g, h, i]] = Inr [b, c, f]"
  by (simp add: squareform_def upt_conv_Cons)

lemma demo_high_level:
  "build_high_level [''a'', ''b'', ''c''] [1, 2, 1] [1, 2] [] =
   Inr [(''1'', [''a'', ''c'']), (''2'', [''b''])]"
  by (simp add: demo_np_where demo_str_int)

lemma demo_group_1:
  "subcluster_group demo_externals [''a'', ''b'', ''c''] [[a, b, c], [d, e, f], [g, h, i]] 3 [0, 2] =
   Inr [(''1'', [''a'', ''c''])]"
  by (simp add: subcluster_group_def np_ix_def squareform_def upt_conv_Cons demo_labels
      demo_np_where mask_select_def demo_str_int)

lemma demo_group_2:
  "subcluster_group demo_externals [''a'', ''b'', ''c''] D 3 [Suc 0] = Inr [(''0'', [''b''])]"
  by (simp add: subcluster_group_def)

lemma demo_subclusters:
  "build_subclusters demo_externals [''a'', ''b'', ''c'']
     [[a, b, c], [d, e, f], [g, h, i]] 3 [1, 2, 1] [1, 2] [] =
   Inr [(''1'', [(''1'', [''a'', ''c''])]), (''2'', [(''0'', [''b''])])]"
  by (simp add: demo_np_where demo_group_1 demo_group_2 demo_str_int)

lemma demo_run:
  "perform_clustering demo_externals
     [conv ''a'' [1] [] ''satisfied'', conv ''b'' [1] [] ''unclear'', conv ''c'' [2] [] ''other'']
     \<lparr>w_semantic = 0, w_attributes = 0, w_outcome = 0\<rparr> 5 3 =
   Inr ([(''1'', [''a'', ''c'']), (''2'', [''b''])],
        [(''1'', [(''1'', [''a'', ''c''])]), (''2'', [(''0'', [''b''])])],
        [[0, 0, 0], [0, 0, 0], [0, 0, 0]])"
  unfolding perform_clustering_def demo_encode_attributes
  by (simp add: np_array_def conv_def demo_weighted_vectors demo_similarity demo_squareform
      demo_labels demo_np_where demo_high_level demo_subclusters
      del: build_high_level.simps build_subclusters.simps)

section \<open>The taxonomy\<close>

text \<open>
  C2. Whenever \<^const>\<open>perform_clustering\<close> returns, on a batch with unique ids and with
  library routines that return one label per observation, the taxonomy is a partition of
  the input: the member lists of all (top-cluster, subcluster) pairs together hold every
  input id once (no duplicate, no omission), and every input id lies in exactly one pair.
\<close>

theorem taxonomy_is_partition:
  assumes "perform_clustering ext convs w nh ns = Inr (hl, sub, sim)"
    and "scipy_shapes ext" and "distinct (map cid convs)"
  shows "mset (all_members sub) = mset (map cid convs) \<and> distinct (all_members sub) \<and>
         (\<forall>i\<in>set (map cid convs). \<exists>!p. in_pair sub (fst p) (snd p) i)"
proof -
  from taxonomy_members [OF assms(1,2)] have
    m: "mset (all_members sub) = mset (map cid convs)" and k: "distinct (map fst sub)"
    and s: "\<forall>(t, d)\<in>set sub. distinct (map fst d)" by simp_all
  from assms(3) have d: "distinct (all_members sub)"
    using mset_eq_imp_distinct_iff [OF m] by simp
  from m have e: "set (all_members sub) = set (map cid convs)" by (rule mset_eq_setD)
  have "\<forall>i\<in>set (map cid convs). \<exists>!p. in_pair sub (fst p) (snd p) i"
  proof
    fix i
    assume "i \<in> set (map cid convs)"
    with e have "i \<in> set (all_members sub)" by simp
    then show "\<exists>!p. in_pair sub (fst p) (snd p) i" by (rule unique_pair [OF d k s])
  qed
  with m d show ?thesis by (intro conjI)
qed

theorem taxonomy_is_partition_witness:
  "perform_clustering demo_externals
     [conv ''a'' [1] [] ''satisfied'', conv ''b'' [1] [] ''unclear'', conv ''c'' [2] [] ''other'']
     \<lparr>w_semantic = 0, w_attributes = 0, w_outcome = 0\<rparr> 5 3 =
   Inr ([(''1'', [''a'', ''c'']), (''2'', [''b''])],
        [(''1'', [(''1'', [''a'', ''c''])]), (''2'', [(''0'', [''b''])])],
        [[0, 0, 0], [0, 0, 0], [0, 0, 0]]) \<and>
   mset (all_members [(''1'', [(''1'', [''a'', ''c''])]), (''2'', [(''0'', [''b''])])]) =
     mset [''a'', ''b'', ''c''] \<and>
   (\<exists>!p. in_pair [(''1'', [(''1'', [''a'', ''c''])]), (''2'', [(''0'', [''b''])])]
      (fst p) (snd p) ''c'')"
proof -
  have d: "distinct (map cid
      [conv ''a'' [1] [] ''satisfied'', conv ''b'' [1] [] ''unclear'', conv ''c'' [2] [] ''other''])"
    by (simp add: conv_def)
  from taxonomy_is_partition [OF demo_run scipy_shapes_demo d] demo_run
  show ?thesis by (simp add: conv_def)
qed

text \<open>
  C10. The two dicts a run returns are consistent: \<^verbatim>\<open>subclusters\<close> has the keys of
  \<^verbatim>\<open>high_level_clusters\<close> (in the same order), and for every top-level cluster the
  member lists of its subclusters, joined, hold exactly the ids of the cluster, each as
  often as the cluster does. The library routines are assumed to return one label per
  observation.
\<close>

theorem subclusters_agree_with_high_level:
  assumes "perform_clustering ext convs w nh ns = Inr (hl, sub, sim)"
    and "scipy_shapes ext"
  shows "map fst sub = map fst hl \<and>
         (\<forall>c members. map_of hl c = Some members \<longrightarrow>
            (\<exists>d. map_of sub c = Some d \<and> mset (concat (map snd d)) = mset members))"
proof -
  from taxonomy_shape [OF assms(1)] obtain L D where
    hl: "hl = map (\<lambda>c. (str_int c, map ((!) (map cid convs)) (np_where L c))) (np_unique L)" and
    sub: "sub = map (\<lambda>c. (str_int c, projr (subcluster_group ext (map cid convs) D ns (np_where L c))))
              (np_unique L)" and
    ok: "\<forall>c\<in>set (np_unique L). \<not> isl (subcluster_group ext (map cid convs) D ns (np_where L c))"
    by blast
  let ?ids = "map cid convs"
  let ?g = "\<lambda>c. projr (subcluster_group ext ?ids D ns (np_where L c))"
  have keys: "map fst sub = map fst hl" by (simp add: hl sub comp_def)
  have main: "\<exists>d. map_of sub k = Some d \<and> mset (concat (map snd d)) = mset members"
    if "map_of hl k = Some members" for k members
  proof -
    from that have "\<exists>c\<in>set (np_unique L). k = str_int c \<and> members = map ((!) ?ids) (np_where L c)"
      unfolding hl by (rule map_of_keyed_Some [OF inj_str_int])
    then obtain c where c: "c \<in> set (np_unique L)" and k: "k = str_int c"
      and ms: "members = map ((!) ?ids) (np_where L c)" by blast
    from ok c obtain d where d: "subcluster_group ext ?ids D ns (np_where L c) = Inr d"
      by (cases "subcluster_group ext ?ids D ns (np_where L c)") auto
    have "map_of sub k = Some (?g c)"
      unfolding sub k using inj_str_int c by (rule map_of_keyed_in)
    with d subcluster_group_Inr [OF d assms(2)] ms show ?thesis by simp
  qed
  show ?thesis
  proof (intro conjI allI impI)
    show "map fst sub = map fst hl" by (rule keys)
  next
    fix c members
    assume "map_of hl c = Some members"
    then show "\<exists>d. map_of sub c = Some d \<and> mset (concat (map snd d)) = mset members"
      by (rule main)
  qed
qed

theorem subclusters_agree_with_high_level_witness:
  "map fst [(''1'', [(''1'', [''a'', ''c''])]), (''2'', [(''0'', [''b''])])] =
     map fst [(''1'', [''a'', ''c'']), (''2'', [''b''])] \<and>
   (\<exists>d. map_of [(''1'', [(''1'', [''a'', ''c''])]), (''2'', [(''0'', [''b''])])] ''1'' = Some d \<and>
        mset (concat (map snd d)) = mset [''a'', ''c''])"
proof -
  have "map_of [(''1'', [''a'', ''c'']), (''2'', [''b''])] ''1'' = Some [''a'', ''c'']"
    by simp
  with subclusters_agree_with_high_level [OF demo_run scipy_shapes_demo]
  show ?thesis by blast
qed

section \<open>Norms and dot products\<close>

lemma sum_squares_nonneg: "0 \<le> sum_list (map (\<lambda>x. x * x) (v :: real list))"
  by (induction v) simp_all

lemma sum_squares_eq_0_iff: "sum_list (map (\<lambda>x. x * x) (v :: real list)) = 0 \<longleftrightarrow> (\<forall>x\<in>set v. x = 0)"
proof (induction v)
  case Nil
  then show ?case by simp
next
  case (Cons a v)
  have "a * a + sum_list (map (\<lambda>x. x * x) v) = 0 \<longleftrightarrow> a * a = 0 \<and> sum_list (map (\<lambda>x. x * x) v) = 0"
    using sum_squares_nonneg [of v] by (intro add_nonneg_eq_0_iff) simp_all
  with Cons show ?case by simp
qed

lemma l2_norm_nonneg: "0 \<le> l2_norm v"
  by (simp add: l2_norm_def sum_squares_nonneg)

lemma l2_norm_eq_0_iff: "l2_norm v = 0 \<longleftrightarrow> (\<forall>x\<in>set v. x = 0)"
  by (simp add: l2_norm_def sum_squares_eq_0_iff)

lemma l2_norm_square: "l2_norm v * l2_norm v = sum_list (map (\<lambda>x. x * x) v)"
  by (simp add: l2_norm_def sum_squares_nonneg)

lemma l2_norm_single: "l2_norm [x] = \<bar>x\<bar>"
  by (simp add: l2_norm_def)


lemma sum_list_divide:
  "sum_list (map (\<lambda>x. f x / c) v) = sum_list (map f v) / (c :: real)"
  by (induction v) (simp_all add: add_divide_distrib)

lemma tiny_norm_pos: "0 < tiny_norm"
  by (simp add: tiny_norm_def float_eps_def)

lemma dot_self: "dot v v = l2_norm v * l2_norm v"
  by (simp add: dot_def zip_same_conv_map comp_def l2_norm_square)

lemma unit_row_tiny: "l2_norm v < tiny_norm \<Longrightarrow> unit_row v = v"
  by (simp add: unit_row_def)

lemma dot_unit_row_self:
  "dot (unit_row v) (unit_row v) =
     (if l2_norm v < tiny_norm then l2_norm v * l2_norm v else 1)"
proof (cases "l2_norm v < tiny_norm")
  case True
  then show ?thesis by (simp add: unit_row_tiny dot_self)
next
  case False
  let ?n = "l2_norm v"
  from False tiny_norm_pos have nz: "?n \<noteq> 0" by auto
  have "dot (unit_row v) (unit_row v) = sum_list (map (\<lambda>x. (x * x) / (?n * ?n)) v)"
    using False by (simp add: dot_def unit_row_def zip_same_conv_map comp_def)
  also have "\<dots> = sum_list (map (\<lambda>x. x * x) v) / (?n * ?n)"
    by (rule sum_list_divide)
  also have "\<dots> = 1" using nz by (simp add: l2_norm_square [symmetric])
  finally show ?thesis using False by simp
qed


section \<open>When a run returns\<close>

text \<open>Fewer than two records: the first statement of the function raises.\<close>

lemma perform_clustering_rejects_small:
  "length convs < 2 \<Longrightarrow> perform_clustering ext convs wts nh ns = Inl ValueError"
  by (simp add: perform_clustering_def)

lemma perform_clustering_similarity:
  assumes "perform_clustering ext convs w nh ns = Inr (hl, sub, sim)"
  shows "\<exists>V. weighted_vectors_of ext convs w = Inr V \<and> length V = length convs \<and>
             sim = cosine_similarity V"
proof -
  from perform_clustering_Inr [OF assms] obtain A names V where
    "encode_attributes (py_float ext) convs = Inr (A, names)" and
    V: "create_weighted_vectors (map semantic_embedding convs) A
        (map (\<lambda>conv. [encode_outcome (outcome conv)]) convs) w = Inr V" and
    "sim = cosine_similarity V"
    by blast
  moreover from length_create_weighted_vectors [OF V] have "length V = length convs" by simp
  ultimately show ?thesis by (simp add: weighted_vectors_of_def)
qed

lemma cosine_similarity_nth:
  "i < length X \<Longrightarrow> j < length X \<Longrightarrow>
   cosine_similarity X ! i ! j = dot (unit_row (X ! i)) (unit_row (X ! j))"
  by (simp add: cosine_similarity_def)

lemma set_np_where: "set (np_where labels c) \<subseteq> {..<length labels}"
  by (auto simp: np_where_def)

lemma build_high_level_total:
  "\<forall>c\<in>set cs. list_all (\<lambda>i. i < length ids) (np_where labels c) \<Longrightarrow>
   \<exists>r. build_high_level ids labels cs acc = Inr r"
  by (induction cs arbitrary: acc) (simp_all add: take_ids_eq)

lemma set_select: "set (select idx sl s) \<subseteq> set idx"
  by (auto simp: select_def dest: set_zip_leftD)

lemma build_cluster_subclusters_total:
  assumes "length sl = length idx" and "\<forall>i\<in>set idx. i < length ids"
  shows "\<exists>r. build_cluster_subclusters ids idx sl ss acc = Inr r"
proof (induction ss arbitrary: acc)
  case Nil
  then show ?case by simp
next
  case (Cons s ss)
  have "list_all (\<lambda>i. i < length ids) (select idx sl s)"
    using assms(2) set_select [of idx sl s] by (auto simp: list_all_iff)
  with Cons assms(1) show ?case
    by (simp add: mask_select_def take_ids_eq select_def)
qed

lemma squareform_square:
  "\<forall>row\<in>set D. length row = length D \<Longrightarrow> \<exists>cd. squareform D = Inr cd"
  by (simp add: squareform_def list_all_iff)

lemma subcluster_group_total:
  assumes shapes: "scipy_shapes ext" and ids: "\<forall>i\<in>set idx. i < length ids"
    and D: "\<forall>i\<in>set idx. i < length D"
  shows "\<exists>d. subcluster_group ext ids D ns idx = Inr d"
proof (cases "length idx < 2")
  case True
  with ids show ?thesis by (simp add: subcluster_group_def take_ids_eq list_all_iff)
next
  case False
  let ?cdm = "map (\<lambda>i. map (\<lambda>j. D ! i ! j) idx) idx"
  from D have ix: "np_ix D idx = Inr ?cdm" by (simp add: np_ix_def list_all_iff)
  have "\<forall>row\<in>set ?cdm. length row = length ?cdm" by auto
  then obtain cd where sq: "squareform ?cdm = Inr cd" using squareform_square by blast
  let ?sl = "fcluster ext (linkage ext cd) (min ns (int (length idx) - 1))"
  from False have "2 \<le> length idx" by simp
  from subcluster_labels_length [OF shapes this ix sq] have "length ?sl = length idx" .
  from build_cluster_subclusters_total [OF this ids]
  obtain r where "build_cluster_subclusters ids idx ?sl (np_unique ?sl) [] = Inr r" by blast
  with False ix sq show ?thesis by (simp add: subcluster_group_def Let_def)
qed

lemma build_subclusters_total:
  assumes "\<forall>c\<in>set cs. \<exists>d. subcluster_group ext ids D ns (np_where labels c) = Inr d"
  shows "\<exists>r. build_subclusters ext ids D ns labels cs acc = Inr r"
  using assms by (induction cs arbitrary: acc) auto

lemma perform_clustering_returns:
  assumes n: "2 \<le> length convs"
    and dims: "\<forall>c\<in>set convs. length (semantic_embedding c) = length (semantic_embedding (hd convs))"
    and V: "weighted_vectors_of ext convs w = Inr V"
    and shapes: "scipy_shapes ext"
  shows "\<exists>hl sub. perform_clustering ext convs w nh ns = Inr (hl, sub, cosine_similarity V)"
proof -
  from V obtain A names where A: "encode_attributes (py_float ext) convs = Inr (A, names)"
    and cw: "create_weighted_vectors (map semantic_embedding convs) A
        (map (\<lambda>conv. [encode_outcome (outcome conv)]) convs) w = Inr V"
    by (auto simp: weighted_vectors_of_def split: sum.splits)
  from n have ne: "convs \<noteq> []" by auto
  have "list_all (\<lambda>row. length row = length (hd (map semantic_embedding convs)))
      (map semantic_embedding convs)"
    unfolding list_all_iff
  proof
    fix row
    assume "row \<in> set (map semantic_embedding convs)"
    then obtain c where "c \<in> set convs" and "row = semantic_embedding c" by auto
    with dims have "length row = length (semantic_embedding (hd convs))" by blast
    then show "length row = length (hd (map semantic_embedding convs))"
      using ne by (simp add: hd_map)
  qed
  then have arr: "np_array (map semantic_embedding convs) = Inr (map semantic_embedding convs)"
    by (simp only: np_array_def if_True)
  let ?sim = "cosine_similarity V"
  let ?D = "map (map (\<lambda>s. 1 - s)) ?sim"
  have lV: "length V = length convs" using length_create_weighted_vectors [OF cw] by simp
  have lD: "length ?D = length convs" by (simp add: length_cosine_similarity lV)
  have "\<forall>row\<in>set ?D. length row = length ?D"
    by (auto simp: length_cosine_similarity dest: length_row_cosine_similarity)
  then obtain cd where sq: "squareform ?D = Inr cd" using squareform_square by blast
  let ?L = "fcluster ext (linkage ext cd) (min nh (int (length convs) - 1))"
  have "length cd = length convs * (length convs - 1) div 2"
    using length_squareform [OF sq] lD by simp
  with n shapes have lL: "length ?L = length convs" unfolding scipy_shapes_def by blast
  have inr: "\<forall>c\<in>set (np_unique ?L). \<forall>i\<in>set (np_where ?L c). i < length convs"
    using set_np_where [of ?L] lL by auto
  then have "\<forall>c\<in>set (np_unique ?L). list_all (\<lambda>i. i < length (map cid convs)) (np_where ?L c)"
    by (simp add: list_all_iff)
  from build_high_level_total [OF this]
  obtain hl where hl: "build_high_level (map cid convs) ?L (np_unique ?L) [] = Inr hl" by blast
  have "\<forall>c\<in>set (np_unique ?L). \<exists>d. subcluster_group ext (map cid convs) ?D ns (np_where ?L c) = Inr d"
  proof
    fix c assume "c \<in> set (np_unique ?L)"
    with inr have "\<forall>i\<in>set (np_where ?L c). i < length (map cid convs)"
      and "\<forall>i\<in>set (np_where ?L c). i < length ?D" using lD by simp_all
    with shapes show "\<exists>d. subcluster_group ext (map cid convs) ?D ns (np_where ?L c) = Inr d"
      by (rule subcluster_group_total)
  qed
  from build_subclusters_total [OF this]
  obtain sub where sub: "build_subclusters ext (map cid convs) ?D ns ?L (np_unique ?L) [] = Inr sub"
    by blast
  from n arr A cw sq hl sub have "perform_clustering ext convs w nh ns = Inr (hl, sub, ?sim)"
    by (simp add: perform_clustering_def Let_def)
  then show ?thesis by blast
qed

section \<open>The similarity matrix\<close>



text \<open>
  The similarity matrix of this batch under the weights \<open>(0, 0, 0)\<close> does not depend on
  the library routines: whatever \<^verbatim>\<open>linkage\<close> and \<^verbatim>\<open>fcluster\<close> return, a run that
  returns gives the all-zero matrix.
\<close>

lemma zero_weights_similarity:
  assumes "perform_clustering ext
     [conv ''a'' [1] [] ''satisfied'', conv ''b'' [1] [] ''unclear'', conv ''c'' [2] [] ''other'']
     \<lparr>w_semantic = 0, w_attributes = 0, w_outcome = 0\<rparr> nh ns = Inr (hl, sub, sim)"
  shows "sim = [[0, 0, 0], [0, 0, 0], [0, 0, 0]]"
proof -
  from perform_clustering_similarity [OF assms] obtain V where
    V: "weighted_vectors_of ext
     [conv ''a'' [1] [] ''satisfied'', conv ''b'' [1] [] ''unclear'', conv ''c'' [2] [] ''other'']
     \<lparr>w_semantic = 0, w_attributes = 0, w_outcome = 0\<rparr> = Inr V"
    and sim: "sim = cosine_similarity V" by blast
  from V have "V = [[0, 0, 0], [0, 0, 0], [0, 0, 0]]"
    unfolding weighted_vectors_of_def demo_encode_attributes
    by (simp add: conv_def demo_weighted_vectors)
  with sim show ?thesis by (simp add: demo_similarity)
qed

lemma encode_outcome_range: "encode_outcome s \<in> {1, 0, 1 / 2}"
  by (simp add: encode_outcome_def outcome_map_def)

lemma last_weighted_vector:
  assumes "create_weighted_vectors E A outs w = Inr V" and "i < length outs" and "outs ! i = [x]"
  shows "last (V ! i) = w_outcome w * (x / (\<bar>x\<bar> + epsilon))"
proof -
  let ?a = "scale_rows (w_semantic w) (normalize_rows E)"
  let ?b = "scale_rows (w_attributes w)
      (if ncols A > 0 then normalize_rows A else zeros (length E) 1)"
  let ?c = "scale_rows (w_outcome w) (normalize_rows outs)"
  from assms(1) have la: "length ?a = length ?b" and lb: "length ?b = length ?c"
    and V: "V = map (\<lambda>(x, y, z). x @ y @ z) (zip ?a (zip ?b ?c))"
    by (simp_all add: create_weighted_vectors_def concatenate_axis1_def Let_def split: if_splits)
  have lc: "length ?c = length outs" by (simp add: scale_rows_def normalize_rows_def)
  with la lb assms(2) have "V ! i = ?a ! i @ ?b ! i @ ?c ! i"
    unfolding V by simp
  moreover have "?c ! i = [w_outcome w * (x / (\<bar>x\<bar> + epsilon))]"
    using assms(2,3) by (simp add: scale_rows_def normalize_rows_def l2_norm_single)
  ultimately show ?thesis by simp
qed

lemma guarded_unit_values:
  "(1 :: real) / (\<bar>1\<bar> + epsilon) = 100000000 / 100000001"
  "(1 / 2 :: real) / (\<bar>1 / 2\<bar> + epsilon) = 50000000 / 50000001"
  by (simp_all add: epsilon_def)

lemma guarded_unit_close:
  assumes "a = 1 \<or> a = (1 / 2 :: real)" and "b = 1 \<or> b = (1 / 2 :: real)"
  shows "\<bar>a / (\<bar>a\<bar> + epsilon) - b / (\<bar>b\<bar> + epsilon)\<bar> \<le> epsilon"
    and "\<bar>a / (\<bar>a\<bar> + epsilon) - 1\<bar> \<le> 2 * epsilon"
proof -
  have e: "epsilon = 1 / 100000000" by (simp add: epsilon_def)
  from assms show "\<bar>a / (\<bar>a\<bar> + epsilon) - b / (\<bar>b\<bar> + epsilon)\<bar> \<le> epsilon"
    by (elim disjE; hypsubst; simp only: guarded_unit_values; simp add: e)
  from assms(1) show "\<bar>a / (\<bar>a\<bar> + epsilon) - 1\<bar> \<le> 2 * epsilon"
    by (elim disjE; hypsubst; simp only: guarded_unit_values; simp add: e)
qed

text \<open>
  C9, as amended. The outcome block of a composite vector is its last entry. For two
  records of a batch whose outcome labels both encode to a positive scalar (1.0 or 0.5),
  the epsilon-guarded normalisation maps both encodings to within \<open>2 \<epsilon>\<close> of 1, so the two
  outcome blocks differ by at most \<open>|w_outcome| \<epsilon>\<close> and each lies within
  \<open>2 |w_outcome| \<epsilon>\<close> of the outcome weight itself: the distinct scalars collapse. The
  bound carries the outcome weight: under \<open>w_outcome = 2\<close> the blocks of a satisfied and
  an unclear record differ by more than \<open>10\<^sup>-\<^sup>8\<close>.
\<close>

theorem outcome_block_collapses:
  assumes run: "create_weighted_vectors E A (map (\<lambda>conv. [encode_outcome (outcome conv)]) convs) w = Inr V"
    and i: "i < length convs" and j: "j < length convs"
    and pi: "0 < encode_outcome (outcome (convs ! i))"
    and pj: "0 < encode_outcome (outcome (convs ! j))"
  shows "\<bar>last (V ! i) - last (V ! j)\<bar> \<le> \<bar>w_outcome w\<bar> * epsilon \<and>
         \<bar>last (V ! i) - w_outcome w\<bar> \<le> \<bar>w_outcome w\<bar> * (2 * epsilon)"
proof -
  let ?a = "encode_outcome (outcome (convs ! i))"
  let ?b = "encode_outcome (outcome (convs ! j))"
  let ?n = "\<lambda>x. x / (\<bar>x\<bar> + epsilon)"
  from pi encode_outcome_range [of "outcome (convs ! i)"] have a: "?a = 1 \<or> ?a = 1 / 2" by auto
  from pj encode_outcome_range [of "outcome (convs ! j)"] have b: "?b = 1 \<or> ?b = 1 / 2" by auto
  from last_weighted_vector [OF run, of i ?a] i have li: "last (V ! i) = w_outcome w * ?n ?a"
    by simp
  from last_weighted_vector [OF run, of j ?b] j have lj: "last (V ! j) = w_outcome w * ?n ?b"
    by simp
  have "\<bar>last (V ! i) - last (V ! j)\<bar> = \<bar>w_outcome w\<bar> * \<bar>?n ?a - ?n ?b\<bar>"
    by (simp add: li lj abs_mult [symmetric] right_diff_distrib)
  also have "\<dots> \<le> \<bar>w_outcome w\<bar> * epsilon"
    using guarded_unit_close(1) [OF a b] by (intro mult_left_mono) simp_all
  finally have 1: "\<bar>last (V ! i) - last (V ! j)\<bar> \<le> \<bar>w_outcome w\<bar> * epsilon" .
  have "\<bar>last (V ! i) - w_outcome w\<bar> = \<bar>w_outcome w\<bar> * \<bar>?n ?a - 1\<bar>"
    by (simp add: li abs_mult [symmetric] right_diff_distrib)
  also have "\<dots> \<le> \<bar>w_outcome w\<bar> * (2 * epsilon)"
    using guarded_unit_close(2) [OF a a] by (intro mult_left_mono) simp_all
  finally have 2: "\<bar>last (V ! i) - w_outcome w\<bar> \<le> \<bar>w_outcome w\<bar> * (2 * epsilon)" .
  from 1 2 show ?thesis by simp
qed



lemma l2_norm_append_zeros:
  assumes "\<forall>x\<in>set z. x = 0"
  shows "l2_norm (v @ z) = l2_norm v"
proof -
  from assms have "sum_list (map (\<lambda>x. x * x) z) = 0" by (simp add: sum_squares_eq_0_iff)
  then show ?thesis by (simp add: l2_norm_def)
qed

lemma l2_norm_scale: "l2_norm (map (\<lambda>x. c * x) v) = \<bar>c\<bar> * l2_norm v"
proof -
  have "sum_list (map (\<lambda>x. (c * x) * (c * x)) v) = (c * c) * sum_list (map (\<lambda>x. x * x) v)"
    by (induction v) (simp_all add: algebra_simps)
  then have "l2_norm (map (\<lambda>x. c * x) v) = sqrt ((c * c) * sum_list (map (\<lambda>x. x * x) v))"
    by (simp add: l2_norm_def comp_def)
  also have "\<dots> = \<bar>c\<bar> * l2_norm v"
    by (simp add: real_sqrt_mult l2_norm_def)
  finally show ?thesis .
qed

lemma unit_row_scale:
  assumes "0 < c" and "l2_norm v = 0 \<or> (tiny_norm \<le> l2_norm v \<and> tiny_norm \<le> c * l2_norm v)"
  shows "unit_row (map (\<lambda>x. c * x) v) = unit_row v"
proof (cases "l2_norm v = 0")
  case True
  then have z: "\<forall>x\<in>set v. x = 0" by (simp add: l2_norm_eq_0_iff)
  then have "map (\<lambda>x. c * x) v = v" by (simp add: map_idI)
  then show ?thesis by simp
next
  case False
  with assms(2) have big: "\<not> l2_norm v < tiny_norm" "\<not> c * l2_norm v < tiny_norm" by simp_all
  from assms(1) have n: "l2_norm (map (\<lambda>x. c * x) v) = c * l2_norm v"
    by (simp add: l2_norm_scale)
  have "unit_row (map (\<lambda>x. c * x) v) = map (\<lambda>x. (c * x) / (c * l2_norm v)) v"
    unfolding unit_row_def n using big(2) by (simp add: comp_def)
  also have "\<dots> = map (\<lambda>x. x / l2_norm v) v" using assms(1) by simp
  also have "\<dots> = unit_row v" using big(1) by (simp add: unit_row_def)
  finally show ?thesis .
qed

lemma unit_row_append_zeros:
  assumes "\<forall>x\<in>set z. x = 0"
  shows "unit_row (v @ z) = unit_row v @ z"
proof -
  have "map (\<lambda>x. x / d) z = z" for d :: real using assms by (intro map_idI) auto
  then show ?thesis by (simp add: unit_row_def l2_norm_append_zeros [OF assms])
qed

lemma dot_zeros: "\<forall>x\<in>set z. x = 0 \<Longrightarrow> dot z y = 0"
  unfolding dot_def
proof (induction z arbitrary: y)
  case Nil
  then show ?case by simp
next
  case (Cons a z)
  then show ?case by (cases y) simp_all
qed

lemma dot_append_zeros:
  assumes "length u = length v" and "\<forall>x\<in>set z. x = 0"
  shows "dot (u @ z) (v @ y) = dot u v"
proof -
  have "dot (u @ z) (v @ y) = dot u v + dot z y"
    using assms(1) by (simp add: dot_def)
  with dot_zeros [OF assms(2)] show ?thesis by simp
qed

lemma length_unit_row: "length (unit_row v) = length v"
  by (simp add: unit_row_def)

lemma weighted_vector_row:
  assumes "create_weighted_vectors E A outs w = Inr V" and "i < length E"
  shows "\<exists>b c. V ! i = map (\<lambda>x. w_semantic w * x) (map (\<lambda>x. x / (l2_norm (E ! i) + epsilon)) (E ! i)) @
           map (\<lambda>x. w_attributes w * x) b @ map (\<lambda>x. w_outcome w * x) c"
proof -
  let ?a = "scale_rows (w_semantic w) (normalize_rows E)"
  let ?bn = "if ncols A > 0 then normalize_rows A else zeros (length E) 1"
  let ?b = "scale_rows (w_attributes w) ?bn"
  let ?c = "scale_rows (w_outcome w) (normalize_rows outs)"
  from assms(1) have la: "length ?a = length ?b" and lb: "length ?b = length ?c"
    and V: "V = map (\<lambda>(x, y, z). x @ y @ z) (zip ?a (zip ?b ?c))"
    by (simp_all add: create_weighted_vectors_def concatenate_axis1_def Let_def split: if_splits)
  have le: "length ?a = length E" by (simp add: scale_rows_def normalize_rows_def)
  from la lb le assms(2) have row: "V ! i = ?a ! i @ ?b ! i @ ?c ! i"
    unfolding V by simp
  have a: "?a ! i = map (\<lambda>x. w_semantic w * x) (map (\<lambda>x. x / (l2_norm (E ! i) + epsilon)) (E ! i))"
    using assms(2) by (simp add: scale_rows_def normalize_rows_def)
  from la le assms(2) have "i < length ?bn" by (simp add: scale_rows_def)
  then have b: "?b ! i = map (\<lambda>x. w_attributes w * x) (?bn ! i)"
    unfolding scale_rows_def by simp
  from la lb le assms(2) have "i < length (normalize_rows outs)" by (simp add: scale_rows_def)
  then have c: "?c ! i = map (\<lambda>x. w_outcome w * x) (normalize_rows outs ! i)"
    unfolding scale_rows_def by simp
  from row a b c show ?thesis by metis
qed

lemma guarded_norm_above:
  assumes "tiny_norm \<le> n"
  shows "tiny_norm \<le> 1 / (n + epsilon) * n"
proof -
  have t1: "tiny_norm \<le> 1 / 2" and e: "epsilon \<le> 1 / 2" and e0: "0 < epsilon"
    by (simp_all add: tiny_norm_def float_eps_def epsilon_def)
  from assms tiny_norm_pos have n0: "0 < n" by simp
  have "tiny_norm * epsilon \<le> tiny_norm * (1 - tiny_norm)"
    using t1 e tiny_norm_pos by (intro mult_left_mono) simp_all
  also have "\<dots> \<le> n * (1 - tiny_norm)"
    using assms t1 by (intro mult_right_mono) simp_all
  finally have "tiny_norm * (n + epsilon) \<le> n" by (simp add: algebra_simps)
  with n0 e0 have "tiny_norm \<le> n / (n + epsilon)" by (simp add: pos_le_divide_eq)
  then show ?thesis by simp
qed

lemma unit_row_semantic_only:
  assumes "create_weighted_vectors E A outs \<lparr>w_semantic = 1, w_attributes = 0, w_outcome = 0\<rparr> = Inr V"
    and "i < length E" and "l2_norm (E ! i) = 0 \<or> tiny_norm \<le> l2_norm (E ! i)"
  shows "\<exists>z. (\<forall>x\<in>set z. x = 0) \<and> unit_row (V ! i) = unit_row (E ! i) @ z"
proof -
  from weighted_vector_row [OF assms(1,2)] obtain b c where
    row: "V ! i = map (\<lambda>x. 1 * x) (map (\<lambda>x. x / (l2_norm (E ! i) + epsilon)) (E ! i)) @
           map (\<lambda>x. 0 * x) b @ map (\<lambda>x. 0 * x) (c :: real list)"
    by auto
  let ?z = "map (\<lambda>x. 0 * x) b @ map (\<lambda>x. 0 * x) c"
  let ?k = "1 / (l2_norm (E ! i) + epsilon)"
  have z: "\<forall>x\<in>set ?z. x = 0" by auto
  have "0 < l2_norm (E ! i) + epsilon"
    using l2_norm_nonneg [of "E ! i"] by (simp add: epsilon_def add_nonneg_pos)
  then have k: "0 < ?k" by simp
  from assms(3) have side: "l2_norm (E ! i) = 0 \<or>
      (tiny_norm \<le> l2_norm (E ! i) \<and> tiny_norm \<le> ?k * l2_norm (E ! i))"
    using guarded_norm_above [of "l2_norm (E ! i)"] by blast
  have "V ! i = map (\<lambda>x. ?k * x) (E ! i) @ ?z"
    unfolding row by (simp add: comp_def)
  then have "unit_row (V ! i) = unit_row (map (\<lambda>x. ?k * x) (E ! i)) @ ?z"
    by (simp only: unit_row_append_zeros [OF z])
  also have "unit_row (map (\<lambda>x. ?k * x) (E ! i)) = unit_row (E ! i)"
    by (rule unit_row_scale [OF k side])
  finally show ?thesis using z by blast
qed

text \<open>
  C8, as amended. Under the weights \<open>(1, 0, 0)\<close> the similarity matrix a run returns is
  the cosine similarity matrix of the raw semantic embeddings, provided every embedding is
  all zero or has a Euclidean norm of at least \<open>10 eps\<close>, the bound below which
  scikit-learn leaves a row unscaled. (In exact arithmetic the two matrices are equal.) The
  claim as stated, for every input, fails for an embedding with a nonzero norm below the
  bound: the raw row is left unscaled, while its composite row, divided by the norm plus
  \<open>10\<^sup>-\<^sup>8\<close>, has a norm above the bound and is normalised.
\<close>

theorem semantic_weight_isolation:
  assumes "perform_clustering ext convs \<lparr>w_semantic = 1, w_attributes = 0, w_outcome = 0\<rparr> nh ns =
    Inr (hl, sub, sim)"
    and "\<forall>c\<in>set convs. l2_norm (semantic_embedding c) = 0 \<or>
           tiny_norm \<le> l2_norm (semantic_embedding c)"
  shows "sim = cosine_similarity (map semantic_embedding convs)"
proof -
  let ?E = "map semantic_embedding convs"
  let ?w = "\<lparr>w_semantic = 1, w_attributes = 0, w_outcome = 0\<rparr>"
  from perform_clustering_Inr [OF assms(1)] obtain A V where
    arr: "np_array ?E = Inr ?E" and
    V: "create_weighted_vectors ?E A (map (\<lambda>conv. [encode_outcome (outcome conv)]) convs) ?w = Inr V"
    and sim: "sim = cosine_similarity V"
    by blast
  have lV: "length V = length ?E" by (rule length_create_weighted_vectors [OF V])
  from arr have same: "\<forall>row\<in>set ?E. length row = length (hd ?E)"
    by (simp add: np_array_def list_all_iff split: if_splits)
  have norms: "l2_norm (?E ! i) = 0 \<or> tiny_norm \<le> l2_norm (?E ! i)" if "i < length ?E" for i
    using that assms(2) by simp
  have entry: "dot (unit_row (V ! i)) (unit_row (V ! j)) = dot (unit_row (?E ! i)) (unit_row (?E ! j))"
    if i: "i < length ?E" and j: "j < length ?E" for i j
  proof -
    from unit_row_semantic_only [OF V i norms [OF i]] obtain zi where
      zi: "\<forall>x\<in>set zi. x = 0" and ui: "unit_row (V ! i) = unit_row (?E ! i) @ zi" by blast
    from unit_row_semantic_only [OF V j norms [OF j]] obtain zj where
      uj: "unit_row (V ! j) = unit_row (?E ! j) @ zj" by blast
    from same i j have "length (?E ! i) = length (?E ! j)"
      by (metis nth_mem)
    then have "length (unit_row (?E ! i)) = length (unit_row (?E ! j))"
      by (simp only: length_unit_row)
    from dot_append_zeros [OF this zi] show ?thesis unfolding ui uj .
  qed
  have "cosine_similarity V = cosine_similarity ?E"
  proof (rule nth_equalityI)
    show "length (cosine_similarity V) = length (cosine_similarity ?E)"
      by (simp only: length_cosine_similarity lV)
  next
    fix i assume "i < length (cosine_similarity V)"
    then have i: "i < length ?E" by (simp only: length_cosine_similarity lV)
    show "cosine_similarity V ! i = cosine_similarity ?E ! i"
    proof (rule nth_equalityI)
      show "length (cosine_similarity V ! i) = length (cosine_similarity ?E ! i)"
        using i lV by (simp add: cosine_similarity_def)
    next
      fix j assume "j < length (cosine_similarity V ! i)"
      with i lV have j: "j < length ?E" by (simp add: cosine_similarity_def)
      from i j lV show "cosine_similarity V ! i ! j = cosine_similarity ?E ! i ! j"
        by (simp only: cosine_similarity_nth entry)
    qed
  qed
  with sim show ?thesis by simp
qed

lemma demo_weighted_vectors_semantic:
  "weighted_vectors_of demo_externals
     [conv ''a'' [1, 0] [] ''satisfied'', conv ''b'' [0, 1] [] ''unclear'',
      conv ''c'' [1, 0] [] ''satisfied'']
     \<lparr>w_semantic = 1, w_attributes = 0, w_outcome = 0\<rparr> =
   Inr [[1 / (1 + epsilon), 0, 0, 0], [0, 1 / (1 + epsilon), 0, 0], [1 / (1 + epsilon), 0, 0, 0]]"
  by (simp add: weighted_vectors_of_def encode_attributes_def collect_keys_def zeros_def
      conv_def create_weighted_vectors_def ncols_def normalize_rows_def scale_rows_def
      concatenate_axis1_def l2_norm_def epsilon_def)

lemma demo_cosine_semantic:
  "cosine_similarity [[1, 0], [0, 1], [1, 0]] = [[1, 0, 1], [0, 1, 0], [1, 0, 1]]"
  by (simp add: cosine_similarity_def unit_row_def dot_def l2_norm_def tiny_norm_def float_eps_def)

theorem semantic_weight_isolation_witness:
  "\<exists>hl sub.
     perform_clustering demo_externals
       [conv ''a'' [1, 0] [] ''satisfied'', conv ''b'' [0, 1] [] ''unclear'',
        conv ''c'' [1, 0] [] ''satisfied'']
       \<lparr>w_semantic = 1, w_attributes = 0, w_outcome = 0\<rparr> 5 3 =
       Inr (hl, sub, [[1, 0, 1], [0, 1, 0], [1, 0, 1]])"
proof -
  let ?batch = "[conv ''a'' [1, 0] [] ''satisfied'', conv ''b'' [0, 1] [] ''unclear'',
    conv ''c'' [1, 0] [] ''satisfied'']"
  let ?w = "\<lparr>w_semantic = 1, w_attributes = 0, w_outcome = 0\<rparr>"
  have n: "2 \<le> length ?batch" by simp
  have dims: "\<forall>c\<in>set ?batch. length (semantic_embedding c) = length (semantic_embedding (hd ?batch))"
    by (simp add: conv_def)
  have norms: "\<forall>c\<in>set ?batch. l2_norm (semantic_embedding c) = 0 \<or>
      tiny_norm \<le> l2_norm (semantic_embedding c)"
    by (simp add: conv_def l2_norm_def tiny_norm_def float_eps_def)
  from perform_clustering_returns [OF n dims demo_weighted_vectors_semantic scipy_shapes_demo]
  obtain hl sub sim where run: "perform_clustering demo_externals ?batch ?w 5 3 = Inr (hl, sub, sim)"
    by blast
  from semantic_weight_isolation [OF run norms]
  have "sim = [[1, 0, 1], [0, 1, 0], [1, 0, 1]]"
    by (simp add: conv_def demo_cosine_semantic)
  with run show ?thesis by blast
qed

text \<open>
  Three records with the embedding \<open>[10\<^sup>-\<^sup>1\<^sup>6]\<close> under the weights \<open>(1, 0, 0)\<close>: every
  entry of the returned matrix is 1, every entry of the cosine similarity matrix of the
  raw embeddings is \<open>10\<^sup>-\<^sup>3\<^sup>2\<close>.
\<close>

lemma l2_norm_padded: "l2_norm [x, 0, 0] = \<bar>x\<bar>"
  by (simp add: l2_norm_def)

lemma tiny_encode_attributes:
  "encode_attributes pf
     [conv ''a'' [1 / 10 ^ 16] [] ''satisfied'', conv ''b'' [1 / 10 ^ 16] [] ''unclear'',
      conv ''c'' [1 / 10 ^ 16] [] ''other''] =
   Inr ([[0], [0], [0]], [])"
  by (simp add: encode_attributes_def collect_keys_def conv_def zeros_def)

lemma tiny_weighted_vectors:
  "create_weighted_vectors
     [[1 / 10000000000000000], [1 / 10000000000000000], [1 / 10000000000000000]]
     [[0], [0], [0]] [[x], [y], [z]] \<lparr>w_semantic = 1, w_attributes = 0, w_outcome = 0\<rparr> =
   Inr [[1 / 100000001, 0, 0], [1 / 100000001, 0, 0], [1 / 100000001, 0, 0]]"
  by (simp add: create_weighted_vectors_def ncols_def normalize_rows_def scale_rows_def
      concatenate_axis1_def l2_norm_single epsilon_def)

lemma tiny_similarity:
  "cosine_similarity [[1 / 100000001, 0, 0], [1 / 100000001, 0, 0], [1 / 100000001, 0, 0]] =
   [[1, 1, 1], [1, 1, 1], [1, 1, 1]]"
  by (simp add: cosine_similarity_def unit_row_def dot_def l2_norm_padded tiny_norm_def
      float_eps_def)

lemma tiny_raw_similarity:
  "cosine_similarity [[1 / 10 ^ 16], [1 / 10 ^ 16], [1 / 10 ^ 16]] =
   [[1 / 10 ^ 32, 1 / 10 ^ 32, 1 / 10 ^ 32], [1 / 10 ^ 32, 1 / 10 ^ 32, 1 / 10 ^ 32],
    [1 / 10 ^ 32, 1 / 10 ^ 32, 1 / 10 ^ 32]]"
  by (simp add: cosine_similarity_def unit_row_def dot_def l2_norm_single tiny_norm_def
      float_eps_def)

lemma tiny_run:
  "perform_clustering demo_externals
     [conv ''a'' [1 / 10 ^ 16] [] ''satisfied'', conv ''b'' [1 / 10 ^ 16] [] ''unclear'',
      conv ''c'' [1 / 10 ^ 16] [] ''other'']
     \<lparr>w_semantic = 1, w_attributes = 0, w_outcome = 0\<rparr> 5 3 =
   Inr ([(''1'', [''a'', ''c'']), (''2'', [''b''])],
        [(''1'', [(''1'', [''a'', ''c''])]), (''2'', [(''0'', [''b''])])],
        [[1, 1, 1], [1, 1, 1], [1, 1, 1]])"
  unfolding perform_clustering_def tiny_encode_attributes
  by (simp add: np_array_def conv_def tiny_weighted_vectors tiny_similarity demo_squareform
      demo_labels demo_np_where demo_high_level demo_subclusters
      del: build_high_level.simps build_subclusters.simps)

theorem semantic_weight_isolation_counterexample:
  "perform_clustering demo_externals
     [conv ''a'' [1 / 10 ^ 16] [] ''satisfied'', conv ''b'' [1 / 10 ^ 16] [] ''unclear'',
      conv ''c'' [1 / 10 ^ 16] [] ''other'']
     \<lparr>w_semantic = 1, w_attributes = 0, w_outcome = 0\<rparr> 5 3 =
   Inr ([(''1'', [''a'', ''c'']), (''2'', [''b''])],
        [(''1'', [(''1'', [''a'', ''c''])]), (''2'', [(''0'', [''b''])])],
        [[1, 1, 1], [1, 1, 1], [1, 1, 1]]) \<and>
   cosine_similarity [[1 / 10 ^ 16], [1 / 10 ^ 16], [1 / 10 ^ 16]] =
   [[1 / 10 ^ 32, 1 / 10 ^ 32, 1 / 10 ^ 32], [1 / 10 ^ 32, 1 / 10 ^ 32, 1 / 10 ^ 32],
    [1 / 10 ^ 32, 1 / 10 ^ 32, 1 / 10 ^ 32]] \<and>
   \<not> \<bar>1 - 1 / 10 ^ 32 :: real\<bar> \<le> 1 / 10 ^ 6"
  using tiny_run tiny_raw_similarity by simp

theorem outcome_block_counterexample:
  "create_weighted_vectors [[1], [1]] [[0], [0]]
     (map (\<lambda>conv. [encode_outcome (outcome conv)])
        [conv ''a'' [1] [] ''satisfied'', conv ''b'' [1] [] ''unclear''])
     \<lparr>w_semantic = 65 / 100, w_attributes = 25 / 100, w_outcome = 2\<rparr> =
   Inr [[65000000 / 100000001, 0, 200000000 / 100000001],
        [65000000 / 100000001, 0, 100000000 / 50000001]] \<and>
   \<not> \<bar>200000000 / 100000001 - 100000000 / 50000001 :: real\<bar> \<le> 1 / 10 ^ 8"
  by (simp add: conv_def create_weighted_vectors_def ncols_def normalize_rows_def
      scale_rows_def concatenate_axis1_def l2_norm_single encode_outcome_def outcome_map_def
      lower_def lower_char_def epsilon_def)

theorem outcome_block_collapses_witness:
  "create_weighted_vectors [[1], [1]] [[0], [0]]
     (map (\<lambda>conv. [encode_outcome (outcome conv)])
        [conv ''a'' [1] [] ''satisfied'', conv ''b'' [1] [] ''unclear''])
     \<lparr>w_semantic = 65 / 100, w_attributes = 25 / 100, w_outcome = 1 / 10\<rparr> =
   Inr [[65000000 / 100000001, 0, 10000000 / 100000001],
        [65000000 / 100000001, 0, 5000000 / 50000001]] \<and>
   \<bar>10000000 / 100000001 - 5000000 / 50000001 :: real\<bar> \<le> \<bar>1 / 10\<bar> * epsilon"
proof -
  let ?convs = "[conv ''a'' [1] [] ''satisfied'', conv ''b'' [1] [] ''unclear'']"
  let ?w = "\<lparr>w_semantic = 65 / 100, w_attributes = 25 / 100, w_outcome = 1 / 10\<rparr>"
  let ?V = "[[65000000 / 100000001, 0, 10000000 / 100000001],
        [65000000 / 100000001, 0, 5000000 / 50000001 :: real]]"
  have run: "create_weighted_vectors [[1], [1]] [[0], [0]]
     (map (\<lambda>conv. [encode_outcome (outcome conv)]) ?convs) ?w = Inr ?V"
    by (simp add: conv_def create_weighted_vectors_def ncols_def normalize_rows_def
        scale_rows_def concatenate_axis1_def l2_norm_single encode_outcome_def outcome_map_def
        lower_def lower_char_def epsilon_def)
  have p0: "0 < encode_outcome (outcome (?convs ! 0))"
    by (simp add: conv_def encode_outcome_def outcome_map_def lower_def lower_char_def)
  have p1: "0 < encode_outcome (outcome (?convs ! 1))"
    by (simp add: conv_def encode_outcome_def outcome_map_def lower_def lower_char_def)
  have "\<bar>last (?V ! 0) - last (?V ! 1)\<bar> \<le> \<bar>w_outcome ?w\<bar> * epsilon"
    using outcome_block_collapses [OF run _ _ p0 p1] by simp
  then have "\<bar>10000000 / 100000001 - 5000000 / 50000001 :: real\<bar> \<le> \<bar>1 / 10\<bar> * epsilon"
    by simp
  with run show ?thesis by (intro conjI)
qed

section \<open>The library thresholds on concrete inputs\<close>

text \<open>
  A column whose spread is small against its mean is taken for constant and only centred;
  a column with the same spread around zero is scaled. An integer beyond the range of
  doubles makes \<^verbatim>\<open>float\<close> raise. Under the weights \<open>(10\<^sup>-\<^sup>2\<^sup>0, 0, 0)\<close> the composite
  vectors are nonzero, their norms are below \<open>10 eps\<close>, and the diagonal of the similarity
  matrix holds the squared norm, about \<open>10\<^sup>-\<^sup>4\<^sup>0\<close>, whatever the library routines return.
\<close>

lemma standardize_near_constant:
  "standardize [10 ^ 16 - 2, 10 ^ 16 + 2] = [- 2, 2]"
  by (simp add: standardize_def variance_def mean_def is_constant_feature_def float_eps_def
      power2_eq_square)

lemma standardize_spread: "standardize [- 2, 2] = [- 1, 1]"
  by (simp add: standardize_def variance_def mean_def is_constant_feature_def float_eps_def
      power2_eq_square)

lemma to_float_overflow: "to_float pf (VInt (10 ^ 309)) = Inl OverflowError"
  by (simp add: int_overflows_def)

lemma tiny_weights_diagonal:
  assumes "perform_clustering ext
     [conv ''a'' [1] [] ''satisfied'', conv ''b'' [1] [] ''unclear'', conv ''c'' [2] [] ''other'']
     \<lparr>w_semantic = 1 / 10 ^ 20, w_attributes = 0, w_outcome = 0\<rparr> nh ns = Inr (hl, sub, sim)"
  shows "sim ! 0 ! 0 = (1 / 10 ^ 20 * (1 / (1 + epsilon))) * (1 / 10 ^ 20 * (1 / (1 + epsilon)))"
proof -
  let ?x = "1 / 10 ^ 20 * (1 / (1 + epsilon))"
  from perform_clustering_similarity [OF assms] obtain V where
    V: "weighted_vectors_of ext
     [conv ''a'' [1] [] ''satisfied'', conv ''b'' [1] [] ''unclear'', conv ''c'' [2] [] ''other'']
     \<lparr>w_semantic = 1 / 10 ^ 20, w_attributes = 0, w_outcome = 0\<rparr> = Inr V"
    and l: "length V = 3" and sim: "sim = cosine_similarity V" by auto
  from V have row: "V ! 0 = [?x, 0, 0]"
    unfolding weighted_vectors_of_def demo_encode_attributes
    by (auto simp: conv_def create_weighted_vectors_def ncols_def normalize_rows_def
        scale_rows_def concatenate_axis1_def l2_norm_single)
  have small: "l2_norm [?x, 0, 0] < tiny_norm"
    by (simp add: l2_norm_padded tiny_norm_def float_eps_def epsilon_def)
  from l have "sim ! 0 ! 0 = dot (unit_row (V ! 0)) (unit_row (V ! 0))"
    by (simp add: sim cosine_similarity_nth)
  also have "\<dots> = l2_norm [?x, 0, 0] * l2_norm [?x, 0, 0]"
    using small by (simp only: row dot_unit_row_self if_True)
  also have "\<dots> = ?x * ?x" by (simp add: l2_norm_padded)
  finally show ?thesis .
qed

section \<open>The requested numbers of clusters\<close>

lemma subcluster_group_cut:
  assumes "subcluster_group ext ids D ns idx = Inr d" and "2 \<le> length idx"
  shows "\<exists>cdm cd. np_ix D idx = Inr cdm \<and> squareform cdm = Inr cd \<and>
     d = grouped ids idx (fcluster ext (linkage ext cd) (min ns (int (length idx) - 1)))"
proof -
  from assms obtain cdm cd where ix: "np_ix D idx = Inr cdm" and sq: "squareform cdm = Inr cd"
    and loop: "build_cluster_subclusters ids idx
        (fcluster ext (linkage ext cd) (min ns (int (length idx) - 1)))
        (np_unique (fcluster ext (linkage ext cd) (min ns (int (length idx) - 1)))) [] = Inr d"
    by (auto simp: subcluster_group_def Let_def split: sum.splits)
  from build_cluster_subclusters_Inr [OF loop distinct_np_unique]
  have "d = grouped ids idx (fcluster ext (linkage ext cd) (min ns (int (length idx) - 1)))"
    by (simp add: grouped_def)
  with ix sq show ?thesis by blast
qed

lemma subcluster_group_clip:
  assumes "length idx \<le> n"
  shows "subcluster_group ext ids D (min ns (int n - 1)) idx = subcluster_group ext ids D ns idx"
proof -
  from assms have h: "min (min ns (int n - 1)) (int (length idx) - 1) = min ns (int (length idx) - 1)"
    by simp
  show ?thesis unfolding subcluster_group_def by (simp only: h)
qed

lemma build_subclusters_cong:
  assumes "\<forall>c\<in>set cs. subcluster_group ext ids D ns (np_where labels c) =
                      subcluster_group ext ids D ns' (np_where labels c)"
  shows "build_subclusters ext ids D ns labels cs acc = build_subclusters ext ids D ns' labels cs acc"
  using assms by (induction cs arbitrary: acc) (simp_all split: sum.splits)

lemma length_np_where_le:
  assumes "list_all (\<lambda>i. i < n) (np_where labels c)"
  shows "length (np_where labels c) \<le> n"
proof -
  have d: "distinct (np_where labels c)" by (simp add: np_where_def)
  from assms have "set (np_where labels c) \<subseteq> {..<n}" by (auto simp: list_all_iff)
  then have "card (set (np_where labels c)) \<le> card {..<n}" by (intro card_mono) simp_all
  with d show ?thesis by (simp add: distinct_card)
qed

text \<open>
  C7. For every run that returns: the top-level dict groups the records by the labels
  \<^verbatim>\<open>fcluster\<close> gives for the requested count \<open>min(num_high_level_clusters, N - 1)\<close>, and
  the dict of every top-level group of size \<open>M \<ge> 2\<close> groups its members by the labels
  \<^verbatim>\<open>fcluster\<close> gives, on the group's distance submatrix, for the requested count
  \<open>min(num_subclusters_per_cluster, M - 1)\<close>. A request above the maximum is clipped without
  an error: the run with both requests clipped to \<open>N - 1\<close> beforehand returns the same
  result.
\<close>

theorem requested_counts_clipped:
  assumes run: "perform_clustering ext convs w nh ns = Inr (hl, sub, sim)"
  shows "(\<exists>cd. squareform (map (map (\<lambda>s. 1 - s)) sim) = Inr cd \<and>
      (let top = fcluster ext (linkage ext cd) (min nh (int (length convs) - 1)) in
         hl = map (\<lambda>c. (str_int c, map ((!) (map cid convs)) (np_where top c))) (np_unique top) \<and>
         map fst sub = map str_int (np_unique top) \<and>
         (\<forall>c\<in>set (np_unique top). 2 \<le> length (np_where top c) \<longrightarrow>
            (\<exists>cdm cd'. np_ix (map (map (\<lambda>s. 1 - s)) sim) (np_where top c) = Inr cdm \<and>
               squareform cdm = Inr cd' \<and>
               map_of sub (str_int c) =
                 Some (grouped (map cid convs) (np_where top c)
                   (fcluster ext (linkage ext cd')
                      (min ns (int (length (np_where top c)) - 1)))))))) \<and>
    perform_clustering ext convs w (min nh (int (length convs) - 1))
      (min ns (int (length convs) - 1)) = Inr (hl, sub, sim)"
proof -
  let ?ids = "map cid convs"
  let ?D = "map (map (\<lambda>s. 1 - s)) sim"
  let ?E = "map semantic_embedding convs"
  from perform_clustering_Inr [OF run] obtain A names V cd where
    n: "2 \<le> length convs" and arr: "np_array ?E = Inr ?E" and
    enc: "encode_attributes (py_float ext) convs = Inr (A, names)" and
    V: "create_weighted_vectors ?E A (map (\<lambda>conv. [encode_outcome (outcome conv)]) convs) w = Inr V"
    and sim: "sim = cosine_similarity V" and sq: "squareform ?D = Inr cd" and
    hl: "build_high_level ?ids
        (fcluster ext (linkage ext cd) (min nh (int (length convs) - 1)))
        (np_unique (fcluster ext (linkage ext cd) (min nh (int (length convs) - 1)))) [] = Inr hl" and
    sub: "build_subclusters ext ?ids ?D ns
        (fcluster ext (linkage ext cd) (min nh (int (length convs) - 1)))
        (np_unique (fcluster ext (linkage ext cd) (min nh (int (length convs) - 1)))) [] = Inr sub"
    by blast
  let ?top = "fcluster ext (linkage ext cd) (min nh (int (length convs) - 1))"
  let ?g = "\<lambda>c. subcluster_group ext ?ids ?D ns (np_where ?top c)"
  from build_high_level_Inr [OF hl distinct_np_unique]
  have hl_eq: "hl = map (\<lambda>c. (str_int c, map ((!) ?ids) (np_where ?top c))) (np_unique ?top)"
    and inr: "\<forall>c\<in>set (np_unique ?top). list_all (\<lambda>i. i < length ?ids) (np_where ?top c)"
    by simp_all
  from build_subclusters_Inr [OF sub distinct_np_unique]
  have sub_eq: "sub = map (\<lambda>c. (str_int c, projr (?g c))) (np_unique ?top)"
    and ok: "\<forall>c\<in>set (np_unique ?top). \<not> isl (?g c)"
    by simp_all
  have keys: "map fst sub = map str_int (np_unique ?top)" by (simp add: sub_eq comp_def)
  have groups: "\<exists>cdm cd'. np_ix ?D (np_where ?top c) = Inr cdm \<and> squareform cdm = Inr cd' \<and>
       map_of sub (str_int c) = Some (grouped ?ids (np_where ?top c)
         (fcluster ext (linkage ext cd') (min ns (int (length (np_where ?top c)) - 1))))"
    if c: "c \<in> set (np_unique ?top)" and m: "2 \<le> length (np_where ?top c)" for c
  proof -
    from ok c obtain d where d: "?g c = Inr d" by (cases "?g c") auto
    have "map_of sub (str_int c) = Some (projr (?g c))"
      unfolding sub_eq using inj_str_int c by (rule map_of_keyed_in)
    with d have "map_of sub (str_int c) = Some d" by simp
    with subcluster_group_cut [OF d m] show ?thesis by auto
  qed
  have first: "\<exists>cd. squareform ?D = Inr cd \<and>
      (let top = fcluster ext (linkage ext cd) (min nh (int (length convs) - 1)) in
         hl = map (\<lambda>c. (str_int c, map ((!) ?ids) (np_where top c))) (np_unique top) \<and>
         map fst sub = map str_int (np_unique top) \<and>
         (\<forall>c\<in>set (np_unique top). 2 \<le> length (np_where top c) \<longrightarrow>
            (\<exists>cdm cd'. np_ix ?D (np_where top c) = Inr cdm \<and> squareform cdm = Inr cd' \<and>
               map_of sub (str_int c) =
                 Some (grouped ?ids (np_where top c)
                   (fcluster ext (linkage ext cd')
                      (min ns (int (length (np_where top c)) - 1)))))))"
    unfolding Let_def using sq hl_eq keys groups by blast
  have clip: "\<forall>c\<in>set (np_unique ?top).
      subcluster_group ext ?ids ?D (min ns (int (length convs) - 1)) (np_where ?top c) = ?g c"
  proof
    fix c assume "c \<in> set (np_unique ?top)"
    with inr have "list_all (\<lambda>i. i < length convs) (np_where ?top c)" by simp
    then have "length (np_where ?top c) \<le> length convs" by (rule length_np_where_le)
    then show "subcluster_group ext ?ids ?D (min ns (int (length convs) - 1)) (np_where ?top c) = ?g c"
      by (rule subcluster_group_clip)
  qed
  have sub': "build_subclusters ext ?ids ?D (min ns (int (length convs) - 1)) ?top
      (np_unique ?top) [] = Inr sub"
    using build_subclusters_cong [OF clip] sub by simp
  have mm: "min (min nh (int (length convs) - 1)) (int (length convs) - 1) =
      min nh (int (length convs) - 1)" by simp
  have second: "perform_clustering ext convs w (min nh (int (length convs) - 1))
      (min ns (int (length convs) - 1)) = Inr (hl, sub, sim)"
    unfolding perform_clustering_def Let_def mm
    using n arr enc V sq hl sub' by (simp add: sim [symmetric])
  from first second show ?thesis by (rule conjI)
qed

theorem requested_counts_clipped_witness:
  "perform_clustering demo_externals
     [conv ''a'' [1] [] ''satisfied'', conv ''b'' [1] [] ''unclear'', conv ''c'' [2] [] ''other'']
     \<lparr>w_semantic = 0, w_attributes = 0, w_outcome = 0\<rparr> 5 3 =
   Inr ([(''1'', [''a'', ''c'']), (''2'', [''b''])],
        [(''1'', [(''1'', [''a'', ''c''])]), (''2'', [(''0'', [''b''])])],
        [[0, 0, 0], [0, 0, 0], [0, 0, 0]]) \<and>
   perform_clustering demo_externals
     [conv ''a'' [1] [] ''satisfied'', conv ''b'' [1] [] ''unclear'', conv ''c'' [2] [] ''other'']
     \<lparr>w_semantic = 0, w_attributes = 0, w_outcome = 0\<rparr> 2 2 =
   Inr ([(''1'', [''a'', ''c'']), (''2'', [''b''])],
        [(''1'', [(''1'', [''a'', ''c''])]), (''2'', [(''0'', [''b''])])],
        [[0, 0, 0], [0, 0, 0], [0, 0, 0]])"
  using requested_counts_clipped [OF demo_run] demo_run by simp

section \<open>The attribute encoder on concrete batches\<close>

text \<open>
  C1. A categorical key is to get one one-hot column per distinct value seen anywhere in
  the batch. In the code the scan of a key stops at the first value that is not
  \<^verbatim>\<open>None\<close>, so \<^verbatim>\<open>categorical_values[key]\<close> holds that first value only: on a batch
  whose key \<open>k\<close> takes the values \<open>a\<close> and \<open>b\<close> the encoder returns the single column
  \<open>k=a\<close> (and standardises it, so the record without the value does not read zero).
\<close>

theorem encode_attributes_one_hot_first_value_only:
  "encode_attributes pf
     [conv ''r1'' [1] [(''k'', VText ''a'')] ''satisfied'',
      conv ''r2'' [1] [(''k'', VText ''b'')] ''satisfied''] =
   Inr ([[1], [- 1]], [''k=a''])"
  by (simp add: encode_attributes_def collect_keys_def conv_def get_attr_def one_hot_column_def
      fit_transform_def standardize_def variance_def is_constant_feature_def mean_def
      float_eps_def real_sqrt_divide power2_eq_square)

text \<open>
  C3. A boolean key is to give a column of exactly 1.0 (true) and 0.0 (false or missing),
  with standardisation applied to the numerical columns. The code passes the whole
  matrix through the scaler: the boolean column \<open>[1, 0, 0, 1]\<close> of a batch whose third
  record lacks the key comes back as \<open>[1, -1, -1, 1]\<close>.
\<close>

theorem encode_attributes_boolean_column_standardized:
  "encode_attributes pf
     [conv ''r1'' [1] [(''flag'', VBool True)] ''satisfied'',
      conv ''r2'' [1] [(''flag'', VBool False)] ''satisfied'',
      conv ''r3'' [1] [] ''satisfied'',
      conv ''r4'' [1] [(''flag'', VBool True)] ''satisfied''] =
   Inr ([[1], [- 1], [- 1], [1]], [''flag''])"
  by (simp add: encode_attributes_def collect_keys_def conv_def get_attr_def boolean_column_def
      fit_transform_def standardize_def variance_def is_constant_feature_def mean_def
      float_eps_def real_sqrt_divide power2_eq_square)

text \<open>
  C4. A key whose value is null in every record is to be treated as categorical with an
  empty one-hot block. The code defaults its type to categorical and then subscripts
  \<^verbatim>\<open>categorical_values\<close> with it, which has no entry for the key: the encoder raises
  \<^verbatim>\<open>KeyError\<close>.
\<close>

theorem encode_attributes_all_null_key_raises:
  "encode_attributes pf
     [conv ''r1'' [1] [(''k'', VNone)] ''satisfied'',
      conv ''r2'' [1] [] ''satisfied''] = Inl KeyError"
  by (simp add: encode_attributes_def collect_keys_def conv_def get_attr_def)

text \<open>
  C6. With at least two records nothing is to raise at the entry point. The
  \<^verbatim>\<open>KeyError\<close> of the encoder on a key that is null everywhere is not caught in
  \<^verbatim>\<open>perform_clustering\<close>: a batch of two records raises, whatever the weights, the
  requested counts and the library routines.
\<close>

theorem perform_clustering_all_null_key_raises:
  "perform_clustering ext
     [conv ''r1'' [1] [(''k'', VNone)] ''satisfied'',
      conv ''r2'' [1] [] ''satisfied''] wts nh ns = Inl KeyError"
  by (simp add: perform_clustering_def np_array_def encode_attributes_def collect_keys_def
      conv_def get_attr_def)

end
